theory Spec2Isabelle
  imports Main "HOL-Library.Monad_Syntax" "HOL-Library.AList" "HOL-Library.Multiset"
    "HOL-Library.List_Lexorder" "HOL-Library.Char_ord"
begin

section \<open>Python values and the operations the adapters apply to them\<close>

text \<open>
  The adapters of \<^verbatim>\<open>main.py\<close> handle whatever the upstream sources deliver: parsed JSON
  (Semantic Scholar, OpenAlex, the PubMed id search), the dictionaries of the scholarly
  library (Google Scholar) and parsed XML (PubMed, arXiv). A parsed JSON document is a
  \<open>pyval\<close>: \<open>None\<close>, a boolean, an integer, a string, a list, or a dictionary with string
  keys, kept as an association list in insertion order. A character of a \<open>string\<close> stands
  for one character of a Python \<open>str\<close>. JSON numbers with a fraction are left out.

  A Python expression that can raise is a value of type \<open>'a option\<close>: \<open>None\<close> is a raised
  \<open>Exception\<close> (AttributeError, TypeError, ValueError, IndexError, ...). Every handler of
  the program is \<^verbatim>\<open>except Exception\<close> or a bare \<^verbatim>\<open>except\<close>, so the class of the exception is
  never looked at. Console output (\<^verbatim>\<open>print\<close>) is left out.
\<close>

datatype pyval =
    PNone
  | PBool bool
  | PInt int
  | PStr string
  | PList "pyval list"
  | PDict "(string \<times> pyval) list"

fun truthy :: "pyval \<Rightarrow> bool" where
  "truthy PNone = False"
| "truthy (PBool b) = b"
| "truthy (PInt i) = (i \<noteq> 0)"
| "truthy (PStr s) = (s \<noteq> [])"
| "truthy (PList xs) = (xs \<noteq> [])"
| "truthy (PDict kvs) = (kvs \<noteq> [])"

text \<open>\<^verbatim>\<open>d.get(k, default)\<close>: only a dictionary has the method.\<close>

fun py_get :: "pyval \<Rightarrow> string \<Rightarrow> pyval \<Rightarrow> pyval option" where
  "py_get (PDict kvs) k dflt = Some (case map_of kvs k of Some v \<Rightarrow> v | None \<Rightarrow> dflt)"
| "py_get _ k dflt = None"

text \<open>\<^verbatim>\<open>for x in v\<close>: a list yields its items, a string its characters, a dictionary its keys.\<close>

fun py_iter :: "pyval \<Rightarrow> pyval list option" where
  "py_iter (PList xs) = Some xs"
| "py_iter (PStr s) = Some (map (\<lambda>c. PStr [c]) s)"
| "py_iter (PDict kvs) = Some (map (\<lambda>kv. PStr (fst kv)) kvs)"
| "py_iter _ = None"

text \<open>\<^verbatim>\<open>v[:n]\<close>: strings and lists can be sliced.\<close>

fun py_slice :: "nat \<Rightarrow> pyval \<Rightarrow> pyval option" where
  "py_slice n (PStr s) = Some (PStr (take n s))"
| "py_slice n (PList xs) = Some (PList (take n xs))"
| "py_slice n _ = None"

fun join :: "string \<Rightarrow> string list \<Rightarrow> string" where
  "join sep [] = []"
| "join sep [x] = x"
| "join sep (x # y # zs) = x @ sep @ join sep (y # zs)"

fun the_strs :: "pyval list \<Rightarrow> string list option" where
  "the_strs [] = Some []"
| "the_strs (PStr s # vs) = map_option ((#) s) (the_strs vs)"
| "the_strs (_ # vs) = None"

text \<open>\<^verbatim>\<open>sep.join(items)\<close>: every item has to be a string.\<close>

definition py_join :: "string \<Rightarrow> pyval list \<Rightarrow> string option" where
  "py_join sep vs = map_option (join sep) (the_strs vs)"

text \<open>\<^verbatim>\<open>sep.join(v)\<close> for a value \<open>v\<close>, which is iterated first.\<close>

definition py_join_val :: "string \<Rightarrow> pyval \<Rightarrow> string option" where
  "py_join_val sep v = do { vs \<leftarrow> py_iter v; py_join sep vs }"

fun is_list :: "pyval \<Rightarrow> bool" where
  "is_list (PList xs) = True"
| "is_list _ = False"

text \<open>The text of an XML element inside an f-string: \<open>None\<close> prints as \<^verbatim>\<open>None\<close>.\<close>

fun fmt_text :: "string option \<Rightarrow> string" where
  "fmt_text None = ''None''"
| "fmt_text (Some s) = s"

fun text_val :: "string option \<Rightarrow> pyval" where
  "text_val None = PNone"
| "text_val (Some s) = PStr s"

text \<open>\<^verbatim>\<open>s.strip()\<close> removes the white space of both ends.\<close>

definition py_isspace :: "char \<Rightarrow> bool" where
  "py_isspace c = (of_char c \<in> {9, 10, 11, 12, 13, 28, 29, 30, 31, 32, 133, 160 :: nat})"

definition strip :: "string \<Rightarrow> string" where
  "strip s = rev (dropWhile py_isspace (rev (dropWhile py_isspace s)))"

section \<open>MD5\<close>

text \<open>
  \<^verbatim>\<open>hashlib.md5(s.encode()).hexdigest()\<close>, the MD5 message digest of RFC 1321 on the UTF-8
  bytes of the text, written as 32 hexadecimal digits.
\<close>

text \<open>The table of constants \<open>floor (2^32 * abs (sin (i + 1)))\<close> and the shift amounts.\<close>

definition md5_K :: "nat list" where
  "md5_K = [0xd76aa478, 0xe8c7b756, 0x242070db, 0xc1bdceee, 0xf57c0faf, 0x4787c62a, 0xa8304613, 0xfd469501, 0x698098d8, 0x8b44f7af, 0xffff5bb1, 0x895cd7be, 0x6b901122, 0xfd987193, 0xa679438e, 0x49b40821, 0xf61e2562, 0xc040b340, 0x265e5a51, 0xe9b6c7aa, 0xd62f105d, 0x02441453, 0xd8a1e681, 0xe7d3fbc8, 0x21e1cde6, 0xc33707d6, 0xf4d50d87, 0x455a14ed, 0xa9e3e905, 0xfcefa3f8, 0x676f02d9, 0x8d2a4c8a, 0xfffa3942, 0x8771f681, 0x6d9d6122, 0xfde5380c, 0xa4beea44, 0x4bdecfa9, 0xf6bb4b60, 0xbebfbc70, 0x289b7ec6, 0xeaa127fa, 0xd4ef3085, 0x04881d05, 0xd9d4d039, 0xe6db99e5, 0x1fa27cf8, 0xc4ac5665, 0xf4292244, 0x432aff97, 0xab9423a7, 0xfc93a039, 0x655b59c3, 0x8f0ccc92, 0xffeff47d, 0x85845dd1, 0x6fa87e4f, 0xfe2ce6e0, 0xa3014314, 0x4e0811a1, 0xf7537e82, 0xbd3af235, 0x2ad7d2bb, 0xeb86d391]"

definition md5_S :: "nat list" where
  "md5_S = [7, 12, 17, 22, 7, 12, 17, 22, 7, 12, 17, 22, 7, 12, 17, 22,
            5, 9, 14, 20, 5, 9, 14, 20, 5, 9, 14, 20, 5, 9, 14, 20,
            4, 11, 16, 23, 4, 11, 16, 23, 4, 11, 16, 23, 4, 11, 16, 23,
            6, 10, 15, 21, 6, 10, 15, 21, 6, 10, 15, 21, 6, 10, 15, 21]"

text \<open>Arithmetic on 32-bit words, kept as natural numbers below \<open>2^32\<close>.\<close>

definition u32 :: "nat \<Rightarrow> nat" where
  "u32 x = x mod 4294967296"

definition not32 :: "nat \<Rightarrow> nat" where
  "not32 x = 4294967295 - x"

definition rotl32 :: "nat \<Rightarrow> nat \<Rightarrow> nat" where
  "rotl32 x s = u32 (x * 2 ^ s) + x div 2 ^ (32 - s)"

definition md5_F :: "nat \<Rightarrow> nat \<Rightarrow> nat \<Rightarrow> nat \<Rightarrow> nat" where
  "md5_F i B C D =
     (if i < 16 then or (and B C) (and (not32 B) D)
      else if i < 32 then or (and D B) (and (not32 D) C)
      else if i < 48 then xor B (xor C D)
      else xor C (or B (not32 D)))"

definition md5_g :: "nat \<Rightarrow> nat" where
  "md5_g i =
     (if i < 16 then i
      else if i < 32 then (5 * i + 1) mod 16
      else if i < 48 then (3 * i + 5) mod 16
      else (7 * i) mod 16)"

text \<open>One of the 64 operations on the state, and the processing of one block of 16 words.\<close>

fun md5_step :: "nat list \<Rightarrow> nat \<Rightarrow> nat \<times> nat \<times> nat \<times> nat \<Rightarrow> nat \<times> nat \<times> nat \<times> nat" where
  "md5_step M i (A, B, C, D) =
     (D, u32 (B + rotl32 (u32 (md5_F i B C D + A + md5_K ! i + M ! md5_g i)) (md5_S ! i)), B, C)"

fun md5_chunk :: "nat \<times> nat \<times> nat \<times> nat \<Rightarrow> nat list \<Rightarrow> nat \<times> nat \<times> nat \<times> nat" where
  "md5_chunk (a0, b0, c0, d0) M =
     (case fold (md5_step M) [0..<64] (a0, b0, c0, d0) of
        (A, B, C, D) \<Rightarrow> (u32 (a0 + A), u32 (b0 + B), u32 (c0 + C), u32 (d0 + D)))"

text \<open>
  Padding (a single bit, zeros up to 56 modulo 64, the length in bits as 8 bytes), the
  little-endian words of the padded bytes, and the digest in hexadecimal.
\<close>

definition le_bytes :: "nat \<Rightarrow> nat \<Rightarrow> nat list" where
  "le_bytes k x = map (\<lambda>i. x div 256 ^ i mod 256) [0..<k]"

definition md5_pad :: "nat list \<Rightarrow> nat list" where
  "md5_pad bs =
     bs @ [128] @ replicate ((119 - length bs mod 64) mod 64) 0 @ le_bytes 8 (8 * length bs)"

fun le_words :: "nat list \<Rightarrow> nat list" where
  "le_words (a # b # c # d # rest) = (a + 256 * b + 65536 * c + 16777216 * d) # le_words rest"
| "le_words _ = []"

fun chunks :: "nat list \<Rightarrow> nat list list" where
  "chunks [] = []"
| "chunks (w # ws) = take 16 (w # ws) # chunks (drop 16 (w # ws))"

definition hex_byte :: "nat \<Rightarrow> string" where
  "hex_byte b = [''0123456789abcdef'' ! (b div 16), ''0123456789abcdef'' ! (b mod 16)]"

definition hex_le :: "nat \<Rightarrow> string" where
  "hex_le x = concat (map hex_byte (le_bytes 4 x))"

definition md5_digest :: "nat list \<Rightarrow> string" where
  "md5_digest bs =
     (case fold (\<lambda>M st. md5_chunk st M) (chunks (le_words (md5_pad bs)))
             (0x67452301, 0xefcdab89, 0x98badcfe, 0x10325476) of
        (a, b, c, d) \<Rightarrow> hex_le a @ hex_le b @ hex_le c @ hex_le d)"

text \<open>\<^verbatim>\<open>s.encode()\<close>: UTF-8, for characters below 256.\<close>

definition utf8 :: "string \<Rightarrow> nat list" where
  "utf8 s = concat (map (\<lambda>c. if of_char c < (128::nat) then [of_char c]
                              else [192 + of_char c div 64, 128 + of_char c mod 64]) s)"

definition md5_hexdigest :: "string \<Rightarrow> string" where
  "md5_hexdigest s = md5_digest (utf8 s)"

section \<open>Parsed XML\<close>

text \<open>
  An element of \<^verbatim>\<open>xml.etree.ElementTree\<close>: its tag (a namespace written \<^verbatim>\<open>{uri}local\<close>), its
  text (\<open>None\<close> when the element has none) and its children in document order.
\<close>

datatype xml = Element (tag: string) (elem_text: "string option") (children: "xml list")

text \<open>\<^verbatim>\<open>e.findall('t')\<close> and \<^verbatim>\<open>e.find('t')\<close>: the children with that tag, and the first of them.\<close>

definition et_findall :: "string \<Rightarrow> xml \<Rightarrow> xml list" where
  "et_findall t e = filter (\<lambda>c. tag c = t) (children e)"

definition first_of :: "'a list \<Rightarrow> 'a option" where
  "first_of xs = (case xs of [] \<Rightarrow> None | x # _ \<Rightarrow> Some x)"

definition et_find :: "string \<Rightarrow> xml \<Rightarrow> xml option" where
  "et_find t e = first_of (et_findall t e)"

text \<open>\<^verbatim>\<open>.//t\<close>: the descendants with that tag, in document order.\<close>

fun descendants :: "xml \<Rightarrow> xml list" where
  "descendants (Element t x cs) = concat (map (\<lambda>c. c # descendants c) cs)"

definition findall_desc :: "string \<Rightarrow> xml \<Rightarrow> xml list" where
  "findall_desc t e = filter (\<lambda>c. tag c = t) (descendants e)"

definition find_desc :: "string \<Rightarrow> xml \<Rightarrow> xml option" where
  "find_desc t e = first_of (findall_desc t e)"

text \<open>\<^verbatim>\<open>.//t/u\<close>: the children tagged \<open>u\<close> of the descendants tagged \<open>t\<close>.\<close>

definition find_desc_child :: "string \<Rightarrow> string \<Rightarrow> xml \<Rightarrow> xml option" where
  "find_desc_child t u e = first_of (concat (map (et_findall u) (findall_desc t e)))"

section \<open>The data model\<close>

record normalized_record =
  source :: string
  title :: pyval
  authors :: string
  year :: pyval
  abstract :: pyval
  url :: pyval
  citations :: pyval
  venue :: pyval

record envelope =
  query :: string
  timestamp :: string
  sources :: "(string \<times> normalized_record list) list"
  total_results :: int


section \<open>The external collaborators\<close>

text \<open>
  What the program reads from outside, gathered in one record. A network call either fails
  (the library raises) or delivers the parsed body; \<^verbatim>\<open>requests.get\<close> with \<^verbatim>\<open>ET.fromstring\<close> or
  \<^verbatim>\<open>response.json()\<close>, and \<^verbatim>\<open>session.get\<close> with \<^verbatim>\<open>response.json()\<close>, are one field each, applied to
  the query text and the requested number of results. \<^verbatim>\<open>scholarly.search_pubs\<close> returns a
  generator, which can raise at every step. \<^verbatim>\<open>str()\<close>, \<^verbatim>\<open>json.dumps\<close> and \<^verbatim>\<open>json.loads\<close>
  belong to Python and are fields too; a stored text that \<^verbatim>\<open>json.loads\<close> accepts is taken
  to denote an envelope.
\<close>

datatype failure = Transport_error | Timeout | Parse_error

datatype 'a generator = Exhausted | Fails | Yields 'a "'a generator"

text \<open>
  The cache backend: each key with its text and the time it expires at, and whether the
  server can be reached (a call to an unreachable server raises).
\<close>

record redis =
  entries :: "(string \<times> string \<times> nat) list"
  reachable :: bool

record world =
  py_str :: "pyval \<Rightarrow> string"
  json_dumps :: "envelope \<Rightarrow> string option"
  json_loads :: "string \<Rightarrow> envelope option"
  now_isoformat :: string
  clock :: nat
  redis_client :: "redis option"
  search_pubs :: "string \<Rightarrow> failure + pyval generator"
  esearch :: "string \<Rightarrow> int \<Rightarrow> failure + pyval"
  efetch :: "string \<Rightarrow> failure + xml"
  arxiv_api :: "string \<Rightarrow> int \<Rightarrow> failure + xml"
  semantic_api :: "string \<Rightarrow> int \<Rightarrow> failure + pyval"
  openalex_api :: "string \<Rightarrow> int \<Rightarrow> failure + pyval"

text \<open>\<^verbatim>\<open>redis_client.get(key)\<close>: raises, or gives the text stored under a key that has not expired.\<close>

definition redis_get :: "redis \<Rightarrow> nat \<Rightarrow> string \<Rightarrow> string option option" where
  "redis_get r now k =
     (if \<not> reachable r then None
      else Some (case map_of (entries r) k of
                   None \<Rightarrow> None
                 | Some (v, expires) \<Rightarrow> if now < expires then Some v else None))"

text \<open>\<^verbatim>\<open>redis_client.setex(key, ttl, value)\<close>: raises, or stores the text for \<open>ttl\<close> seconds.\<close>

definition redis_setex :: "redis \<Rightarrow> nat \<Rightarrow> string \<Rightarrow> nat \<Rightarrow> string \<Rightarrow> redis option" where
  "redis_setex r now k ttl v =
     (if \<not> reachable r then None
      else Some (r\<lparr>entries := AList.update k (v, now + ttl) (entries r)\<rparr>))"

section \<open>The source adapters\<close>

text \<open>
  Every adapter is \<^verbatim>\<open>results = []; try: ...; except Exception: print(...); return results\<close>.
  The \<^verbatim>\<open>try\<close> statement of an adapter is a function that gives the list \<open>results\<close> as it is
  when the statement is left, and whether it was left through the handler. The adapter
  itself gives \<open>Some results\<close>; \<open>None\<close> would be an exception that reaches the caller.

  A loop that appends one record per item and is left at the first exception:
\<close>

fun loop_append :: "('a \<Rightarrow> 'b option) \<Rightarrow> 'a list \<Rightarrow> 'b list \<Rightarrow> 'b list \<times> bool" where
  "loop_append f [] results = (results, False)"
| "loop_append f (x # xs) results =
     (case f x of
        None \<Rightarrow> (results, True)
      | Some r \<Rightarrow> loop_append f xs (results @ [r]))"

subsection \<open>Google Scholar\<close>

definition scholar_record :: "world \<Rightarrow> pyval \<Rightarrow> normalized_record option" where
  "scholar_record w pub = do {
     bib \<leftarrow> py_get pub ''bib'' (PDict []);
     t \<leftarrow> py_get bib ''title'' (PStr ''N/A'');
     a \<leftarrow> py_get bib ''author'' PNone;
     auth \<leftarrow> (if is_list a
              then do { l \<leftarrow> py_get bib ''author'' (PList []); py_join_val '', '' l }
              else do { s \<leftarrow> py_get bib ''author'' (PStr ''N/A''); Some (py_str w s) });
     y \<leftarrow> py_get bib ''pub_year'' (PStr ''N/A'');
     ab \<leftarrow> py_get bib ''abstract'' (PStr ''N/A'');
     ab500 \<leftarrow> py_slice 500 ab;
     eprint \<leftarrow> py_get pub ''eprint_url'' (PStr ''N/A'');
     u \<leftarrow> py_get pub ''pub_url'' eprint;
     c \<leftarrow> py_get pub ''num_citations'' (PInt 0);
     v \<leftarrow> py_get bib ''venue'' (PStr ''N/A'');
     Some \<lparr>source = ''Google Scholar'', title = t, authors = auth, year = PStr (py_str w y),
           abstract = ab500, url = u, citations = c, venue = v\<rparr>
   }"

text \<open>
  The loop over the generator. The item with index \<open>num_results\<close> is fetched before the
  \<^verbatim>\<open>break\<close>. The \<^verbatim>\<open>print\<close> at the end of the body slices the title, after the record is appended.
\<close>

fun scholar_loop ::
  "world \<Rightarrow> int \<Rightarrow> int \<Rightarrow> pyval generator \<Rightarrow> normalized_record list \<Rightarrow> normalized_record list \<times> bool"
where
  "scholar_loop w num_results i Exhausted results = (results, False)"
| "scholar_loop w num_results i Fails results = (results, True)"
| "scholar_loop w num_results i (Yields pub rest) results =
     (if i \<ge> num_results then (results, False)
      else case scholar_record w pub of
             None \<Rightarrow> (results, True)
           | Some r \<Rightarrow>
               (case py_slice 50 (title r) of
                  None \<Rightarrow> (results @ [r], True)
                | Some _ \<Rightarrow> scholar_loop w num_results (i + 1) rest (results @ [r])))"

definition search_google_scholar_try ::
  "world \<Rightarrow> string \<Rightarrow> int \<Rightarrow> normalized_record list \<times> bool" where
  "search_google_scholar_try w q num_results =
     (case search_pubs w q of
        Inl _ \<Rightarrow> ([], True)
      | Inr search_query \<Rightarrow> scholar_loop w num_results 0 search_query [])"

definition search_google_scholar :: "world \<Rightarrow> string \<Rightarrow> int \<Rightarrow> normalized_record list option" where
  "search_google_scholar w q num_results = Some (fst (search_google_scholar_try w q num_results))"

subsection \<open>PubMed\<close>

text \<open>The authors that have both a \<^verbatim>\<open>LastName\<close> and a \<^verbatim>\<open>ForeName\<close> child.\<close>

fun pubmed_authors :: "xml list \<Rightarrow> string list" where
  "pubmed_authors [] = []"
| "pubmed_authors (author # rest) =
     (case (et_find ''LastName'' author, et_find ''ForeName'' author) of
        (Some lastname, Some forename) \<Rightarrow>
          (fmt_text (elem_text forename) @ '' '' @ fmt_text (elem_text lastname)) # pubmed_authors rest
      | _ \<Rightarrow> pubmed_authors rest)"

definition text_or_na :: "xml option \<Rightarrow> pyval" where
  "text_or_na e = (case e of Some x \<Rightarrow> text_val (elem_text x) | None \<Rightarrow> PStr ''N/A'')"

fun fmt_val :: "pyval \<Rightarrow> string" where
  "fmt_val (PStr s) = s"
| "fmt_val _ = ''None''"

text \<open>The body of the inner \<^verbatim>\<open>try\<close>: an article that raises is skipped (\<^verbatim>\<open>continue\<close>).\<close>

definition pubmed_record :: "xml \<Rightarrow> normalized_record option" where
  "pubmed_record article = do {
     let title = text_or_na (find_desc ''ArticleTitle'' article);
     let authors = pubmed_authors (findall_desc ''Author'' article);
     let abstract = text_or_na (find_desc ''AbstractText'' article);
     let year = text_or_na (find_desc_child ''PubDate'' ''Year'' article);
     let pmid = text_or_na (find_desc ''PMID'' article);
     ab500 \<leftarrow> (if abstract \<noteq> PStr ''N/A'' then py_slice 500 abstract else Some (PStr ''N/A''));
     Some \<lparr>source = ''PubMed'', title = title, authors = join '', '' authors, year = year,
           abstract = ab500,
           url = PStr (''https://pubmed.ncbi.nlm.nih.gov/'' @ fmt_val pmid @ ''/''),
           citations = PStr ''N/A'', venue = PStr ''PubMed''\<rparr>
   }"

definition search_pubmed_try :: "world \<Rightarrow> string \<Rightarrow> int \<Rightarrow> normalized_record list \<times> bool" where
  "search_pubmed_try w q num_results =
     (case esearch w q num_results of
        Inl _ \<Rightarrow> ([], True)
      | Inr data \<Rightarrow>
          (case do { r \<leftarrow> py_get data ''esearchresult'' (PDict []); py_get r ''idlist'' (PList []) } of
             None \<Rightarrow> ([], True)
           | Some ids \<Rightarrow>
               if \<not> truthy ids then ([], False)
               else (case py_join_val '','' ids of
                       None \<Rightarrow> ([], True)
                     | Some id_list \<Rightarrow>
                         (case efetch w id_list of
                            Inl _ \<Rightarrow> ([], True)
                          | Inr root \<Rightarrow>
                              (List.map_filter pubmed_record (findall_desc ''PubmedArticle'' root),
                               False)))))"

definition search_pubmed :: "world \<Rightarrow> string \<Rightarrow> int \<Rightarrow> normalized_record list option" where
  "search_pubmed w q num_results = Some (fst (search_pubmed_try w q num_results))"

subsection \<open>arXiv\<close>

definition atom :: "string \<Rightarrow> string" where
  "atom name = ''{http://www.w3.org/2005/Atom}'' @ name"

text \<open>\<^verbatim>\<open>e.text.strip() if e is not None else 'N/A'\<close>: an element without text raises.\<close>

definition stripped_or_na :: "xml option \<Rightarrow> pyval option" where
  "stripped_or_na e =
     (case e of
        Some x \<Rightarrow> map_option (\<lambda>s. PStr (strip s)) (elem_text x)
      | None \<Rightarrow> Some (PStr ''N/A''))"

text \<open>\<^verbatim>\<open>[author.find('atom:name').text for author in ...]\<close>: an author without a name raises.\<close>

definition arxiv_authors :: "xml list \<Rightarrow> pyval list option" where
  "arxiv_authors as =
     those (map (\<lambda>author. map_option (\<lambda>n. text_val (elem_text n)) (et_find (atom ''name'') author)) as)"

definition arxiv_record :: "xml \<Rightarrow> normalized_record option" where
  "arxiv_record entry = do {
     title \<leftarrow> stripped_or_na (et_find (atom ''title'') entry);
     authors \<leftarrow> arxiv_authors (et_findall (atom ''author'') entry);
     summary \<leftarrow> stripped_or_na (et_find (atom ''summary'') entry);
     published \<leftarrow> (case et_find (atom ''published'') entry of
                     Some p \<Rightarrow> py_slice 4 (text_val (elem_text p))
                   | None \<Rightarrow> Some (PStr ''N/A''));
     let link = text_or_na (et_find (atom ''id'') entry);
     auth \<leftarrow> py_join '', '' authors;
     ab500 \<leftarrow> (if summary \<noteq> PStr ''N/A'' then py_slice 500 summary else Some (PStr ''N/A''));
     Some \<lparr>source = ''arXiv'', title = title, authors = auth, year = published,
           abstract = ab500, url = link, citations = PStr ''N/A'',
           venue = PStr ''arXiv Preprint''\<rparr>
   }"

definition search_arxiv_try :: "world \<Rightarrow> string \<Rightarrow> int \<Rightarrow> normalized_record list \<times> bool" where
  "search_arxiv_try w q num_results =
     (case arxiv_api w (''all:'' @ q) num_results of
        Inl _ \<Rightarrow> ([], True)
      | Inr root \<Rightarrow> loop_append arxiv_record (et_findall (atom ''entry'') root) [])"

definition search_arxiv :: "world \<Rightarrow> string \<Rightarrow> int \<Rightarrow> normalized_record list option" where
  "search_arxiv w q num_results = Some (fst (search_arxiv_try w q num_results))"

subsection \<open>Semantic Scholar\<close>

text \<open>\<^verbatim>\<open>[a.get('name', '') for a in paper.get('authors', [])]\<close>.\<close>

definition semantic_authors :: "pyval \<Rightarrow> pyval list option" where
  "semantic_authors paper = do {
     al \<leftarrow> py_get paper ''authors'' (PList []);
     as \<leftarrow> py_iter al;
     those (map (\<lambda>a. py_get a ''name'' (PStr [])) as)
   }"

definition semantic_record :: "world \<Rightarrow> pyval \<Rightarrow> normalized_record option" where
  "semantic_record w paper = do {
     authors \<leftarrow> semantic_authors paper;
     t \<leftarrow> py_get paper ''title'' (PStr ''N/A'');
     auth \<leftarrow> py_join '', '' authors;
     y \<leftarrow> py_get paper ''year'' (PStr ''N/A'');
     ab \<leftarrow> py_get paper ''abstract'' (PStr ''N/A'');
     ab500 \<leftarrow> py_slice 500 (if truthy ab then ab else PStr ''N/A'');
     u \<leftarrow> py_get paper ''url'' (PStr ''N/A'');
     c \<leftarrow> py_get paper ''citationCount'' (PInt 0);
     v \<leftarrow> py_get paper ''venue'' (PStr ''N/A'');
     Some \<lparr>source = ''Semantic Scholar'', title = t, authors = auth, year = PStr (py_str w y),
           abstract = ab500, url = u, citations = c, venue = v\<rparr>
   }"

definition search_semantic_scholar_try ::
  "world \<Rightarrow> string \<Rightarrow> int \<Rightarrow> normalized_record list \<times> bool" where
  "search_semantic_scholar_try w q num_results =
     (case semantic_api w q num_results of
        Inl _ \<Rightarrow> ([], True)
      | Inr data \<Rightarrow>
          (case do { d \<leftarrow> py_get data ''data'' (PList []); py_iter d } of
             None \<Rightarrow> ([], True)
           | Some papers \<Rightarrow> loop_append (semantic_record w) papers []))"

definition search_semantic_scholar_async ::
  "world \<Rightarrow> string \<Rightarrow> int \<Rightarrow> normalized_record list option" where
  "search_semantic_scholar_async w q num_results =
     Some (fst (search_semantic_scholar_try w q num_results))"

subsection \<open>OpenAlex\<close>

text \<open>A position of the inverted index: an integer (a boolean counts as 0 or 1).\<close>

fun as_int :: "pyval \<Rightarrow> int option" where
  "as_int (PInt i) = Some i"
| "as_int (PBool b) = Some (if b then 1 else 0)"
| "as_int _ = None"

fun maximum :: "int list \<Rightarrow> int option" where
  "maximum [] = None"
| "maximum (x # xs) = Some (fold max xs x)"

text \<open>
  \<^verbatim>\<open>max(positions)\<close>, as far as the sum \<^verbatim>\<open>... + 1\<close> that follows accepts the result: the
  positions are a list of integers that is not empty.
\<close>

definition max_position :: "pyval \<Rightarrow> int option" where
  "max_position positions = do {
     ps \<leftarrow> py_iter positions;
     is \<leftarrow> those (map as_int ps);
     maximum is
   }"

text \<open>\<^verbatim>\<open>words[pos] = word\<close>: a negative index counts from the end, one out of range raises.\<close>

definition py_setitem :: "'a list \<Rightarrow> int \<Rightarrow> 'a \<Rightarrow> 'a list option" where
  "py_setitem words pos word =
     (if 0 \<le> pos \<and> pos < int (length words) then Some (words[nat pos := word])
      else if - int (length words) \<le> pos \<and> pos < 0
        then Some (words[nat (int (length words) + pos) := word])
      else None)"

fun place_word :: "string \<Rightarrow> pyval list \<Rightarrow> string list \<Rightarrow> string list option" where
  "place_word word [] words = Some words"
| "place_word word (pos # rest) words = do {
     i \<leftarrow> as_int pos;
     words' \<leftarrow> py_setitem words i word;
     place_word word rest words'
   }"

fun place_words :: "(string \<times> pyval) list \<Rightarrow> string list \<Rightarrow> string list option" where
  "place_words [] words = Some words"
| "place_words ((word, positions) # rest) words = do {
     ps \<leftarrow> py_iter positions;
     words' \<leftarrow> place_word word ps words;
     place_words rest words'
   }"

fun dict_items :: "pyval \<Rightarrow> (string \<times> pyval) list option" where
  "dict_items (PDict kvs) = Some kvs"
| "dict_items _ = None"

text \<open>The list \<open>words\<close> after the two loops over the inverted index.\<close>

definition index_words :: "pyval \<Rightarrow> string list option" where
  "index_words abstract_inv = do {
     items \<leftarrow> dict_items abstract_inv;
     maxima \<leftarrow> those (map (\<lambda>kv. max_position (snd kv)) items);
     m \<leftarrow> maximum maxima;
     place_words items (replicate (nat (m + 1)) [])
   }"

definition work_abstract :: "pyval \<Rightarrow> pyval option" where
  "work_abstract abstract_inv =
     (if truthy abstract_inv
      then map_option (\<lambda>words. PStr (take 500 (join '' '' words))) (index_words abstract_inv)
      else Some (PStr ''N/A''))"

definition openalex_authors :: "pyval \<Rightarrow> pyval list option" where
  "openalex_authors work = do {
     al \<leftarrow> py_get work ''authorships'' (PList []);
     as \<leftarrow> py_iter al;
     those (map (\<lambda>authorship. do {
                    a \<leftarrow> py_get authorship ''author'' (PDict []);
                    py_get a ''display_name'' (PStr [])
                  }) as)
   }"

definition openalex_record :: "world \<Rightarrow> pyval \<Rightarrow> normalized_record option" where
  "openalex_record w work = do {
     authors \<leftarrow> openalex_authors work;
     abstract_inv \<leftarrow> py_get work ''abstract_inverted_index'' (PDict []);
     abstract \<leftarrow> work_abstract abstract_inv;
     t \<leftarrow> py_get work ''title'' (PStr ''N/A'');
     auth \<leftarrow> py_join '', '' (take 5 authors);
     y \<leftarrow> py_get work ''publication_year'' (PStr ''N/A'');
     ident \<leftarrow> py_get work ''id'' (PStr ''N/A'');
     u \<leftarrow> py_get work ''doi'' ident;
     c \<leftarrow> py_get work ''cited_by_count'' (PInt 0);
     hv \<leftarrow> py_get work ''host_venue'' (PDict []);
     v \<leftarrow> py_get hv ''display_name'' (PStr ''N/A'');
     Some \<lparr>source = ''OpenAlex'', title = t, authors = auth, year = PStr (py_str w y),
           abstract = abstract, url = u, citations = c, venue = v\<rparr>
   }"

definition search_openalex_try :: "world \<Rightarrow> string \<Rightarrow> int \<Rightarrow> normalized_record list \<times> bool" where
  "search_openalex_try w q num_results =
     (case openalex_api w q num_results of
        Inl _ \<Rightarrow> ([], True)
      | Inr data \<Rightarrow>
          (case do { d \<leftarrow> py_get data ''results'' (PList []); py_iter d } of
             None \<Rightarrow> ([], True)
           | Some works \<Rightarrow> loop_append (openalex_record w) works []))"

definition search_openalex_async :: "world \<Rightarrow> string \<Rightarrow> int \<Rightarrow> normalized_record list option" where
  "search_openalex_async w q num_results = Some (fst (search_openalex_try w q num_results))"

section \<open>The aggregator and the cache gate\<close>

text \<open>
  \<^verbatim>\<open>search_all_sources\<close> calls the five adapters by their global names, each with the query
  alone, so with \<^verbatim>\<open>num_results = 10\<close>. The aggregator is modelled over any five functions
  from the query to a list of records or an exception, and then applied to the adapters
  above. An awaited call that raises is caught by the \<^verbatim>\<open>try\<close> around it.
\<close>

record adapters =
  scholar :: "string \<Rightarrow> normalized_record list option"
  pubmed :: "string \<Rightarrow> normalized_record list option"
  arxiv :: "string \<Rightarrow> normalized_record list option"
  semantic :: "string \<Rightarrow> normalized_record list option"
  openalex :: "string \<Rightarrow> normalized_record list option"

definition the_adapters :: "world \<Rightarrow> adapters" where
  "the_adapters w =
     \<lparr>scholar = (\<lambda>q. search_google_scholar w q 10),
      pubmed = (\<lambda>q. search_pubmed w q 10),
      arxiv = (\<lambda>q. search_arxiv w q 10),
      semantic = (\<lambda>q. search_semantic_scholar_async w q 10),
      openalex = (\<lambda>q. search_openalex_async w q 10)\<rparr>"

text \<open>
  What the aggregator does with an adapter, in the order it does it: calling an
  \<^verbatim>\<open>async def\<close> function creates a coroutine object and runs nothing of its body;
  \<^verbatim>\<open>await task\<close> runs the body of the coroutine and goes on when it has returned;
  \<^verbatim>\<open>await asyncio.to_thread(f, query)\<close> hands \<open>f\<close> to a worker thread and goes on when \<open>f\<close>
  has returned.
\<close>

datatype event = Created string | Started string | Finished string

text \<open>
  One \<^verbatim>\<open>try: results['sources'][name] = await ...; results['total_results'] += len(...)\<close>
  \<^verbatim>\<open>except Exception: results['sources'][name] = []\<close>.
\<close>

definition await_source ::
  "string \<Rightarrow> normalized_record list option \<Rightarrow> envelope \<times> event list \<Rightarrow> envelope \<times> event list"
where
  "await_source name outcome st =
     (case st of (results, trace) \<Rightarrow>
        ((case outcome of
            Some rs \<Rightarrow>
              results\<lparr>sources := AList.update name rs (sources results),
                      total_results := total_results results + int (length rs)\<rparr>
          | None \<Rightarrow> results\<lparr>sources := AList.update name [] (sources results)\<rparr>),
         trace @ [Started name, Finished name]))"

definition all_sources :: "string list" where
  "all_sources = [''scholar'', ''pubmed'', ''arxiv'', ''semantic'', ''openalex'']"

definition make_tasks ::
  "adapters \<Rightarrow> string \<Rightarrow> string list \<Rightarrow> (string \<times> normalized_record list option) list" where
  "make_tasks ad q srcs =
     (if ''semantic'' \<in> set srcs then [(''semantic'', semantic ad q)] else []) @
     (if ''openalex'' \<in> set srcs then [(''openalex'', openalex ad q)] else [])"

text \<open>Lines 321 to 366: the envelope is built and filled source by source.\<close>

definition assemble ::
  "adapters \<Rightarrow> world \<Rightarrow> string \<Rightarrow> string list \<Rightarrow> envelope \<times> event list" where
  "assemble ad w q srcs =
     (let results = \<lparr>query = q, timestamp = now_isoformat w, sources = [], total_results = 0\<rparr>;
          tasks = make_tasks ad q srcs;
          st0 = (results, map (\<lambda>t. Created (fst t)) tasks);
          st1 = fold (\<lambda>t. await_source (fst t) (snd t)) tasks st0;
          st2 = (if ''scholar'' \<in> set srcs then await_source ''scholar'' (scholar ad q) st1 else st1);
          st3 = (if ''pubmed'' \<in> set srcs then await_source ''pubmed'' (pubmed ad q) st2 else st2);
          st4 = (if ''arxiv'' \<in> set srcs then await_source ''arxiv'' (arxiv ad q) st3 else st3)
      in st4)"

definition cache_key :: "string \<Rightarrow> string list \<Rightarrow> string" where
  "cache_key q srcs = md5_hexdigest (q @ '':'' @ join '','' (sort srcs))"

text \<open>
  Lines 306 to 313: the stored envelope, when there is a client, the call does not raise,
  the text is not empty and \<^verbatim>\<open>json.loads\<close> accepts it.
\<close>

definition cache_lookup :: "world \<Rightarrow> string \<Rightarrow> envelope option" where
  "cache_lookup w k =
     (case redis_client w of
        None \<Rightarrow> None
      | Some r \<Rightarrow>
          (case redis_get r (clock w) k of
             None \<Rightarrow> None
           | Some None \<Rightarrow> None
           | Some (Some cached) \<Rightarrow> if cached \<noteq> [] then json_loads w cached else None))"

text \<open>Lines 373 to 377: the backend after the attempt to store; a failure changes nothing.\<close>

definition cache_store :: "world \<Rightarrow> string \<Rightarrow> envelope \<Rightarrow> redis option" where
  "cache_store w k results =
     (case redis_client w of
        None \<Rightarrow> None
      | Some r \<Rightarrow>
          (case json_dumps w results of
             None \<Rightarrow> Some r
           | Some txt \<Rightarrow>
               (case redis_setex r (clock w) k 86400 txt of
                  None \<Rightarrow> Some r
                | Some r' \<Rightarrow> Some r')))"

text \<open>\<^verbatim>\<open>if sources is None: sources = [...]\<close>.\<close>

definition selected_sources :: "string list option \<Rightarrow> string list" where
  "selected_sources sources_arg = (case sources_arg of None \<Rightarrow> all_sources | Some s \<Rightarrow> s)"

text \<open>
  The result of a call: the envelope returned, what was done with the adapters, and the
  cache backend afterwards.
\<close>

definition search_all_sources_with ::
  "adapters \<Rightarrow> world \<Rightarrow> string \<Rightarrow> string list option \<Rightarrow> envelope \<times> event list \<times> redis option"
where
  "search_all_sources_with ad w q sources_arg =
     (let srcs = selected_sources sources_arg;
          k = cache_key q srcs
      in case cache_lookup w k of
           Some cached \<Rightarrow> (cached, [], redis_client w)
         | None \<Rightarrow>
             (case assemble ad w q srcs of
                (results, trace) \<Rightarrow> (results, trace, cache_store w k results)))"

definition search_all_sources ::
  "world \<Rightarrow> string \<Rightarrow> string list option \<Rightarrow> envelope \<times> event list \<times> redis option" where
  "search_all_sources w = search_all_sources_with (the_adapters w) w"

subsection \<open>The endpoint\<close>

record search_request =
  req_query :: string
  req_sources :: "string list option"
  num_results :: int

text \<open>
  The response of \<^verbatim>\<open>POST /search\<close>, without its \<^verbatim>\<open>message\<close> text. The handler passes the query
  and the source list on; \<^verbatim>\<open>request.num_results\<close> is not read.
\<close>

record search_response =
  success :: bool
  data :: envelope

definition search_endpoint :: "world \<Rightarrow> search_request \<Rightarrow> search_response \<times> event list \<times> redis option" where
  "search_endpoint w request =
     (case search_all_sources w (req_query request) (req_sources request) of
        (results, trace, r) \<Rightarrow> (\<lparr>success = True, data = results\<rparr>, trace, r))"

section \<open>Notions used in the statements\<close>

text \<open>What an awaited adapter leaves in its slot: its list, or the empty list when it raised.\<close>

definition results_of :: "normalized_record list option \<Rightarrow> normalized_record list" where
  "results_of outcome = (case outcome of Some rs \<Rightarrow> rs | None \<Rightarrow> [])"

text \<open>The order in which the aggregator handles the sources, and the adapter behind each name.\<close>

definition handling_order :: "string list" where
  "handling_order = [''semantic'', ''openalex'', ''scholar'', ''pubmed'', ''arxiv'']"

definition adapter_of :: "adapters \<Rightarrow> string \<Rightarrow> string \<Rightarrow> normalized_record list option" where
  "adapter_of ad name =
     (if name = ''semantic'' then semantic ad
      else if name = ''openalex'' then openalex ad
      else if name = ''scholar'' then scholar ad
      else if name = ''pubmed'' then pubmed ad
      else arxiv ad)"

text \<open>The five adapters, as functions of the world, the query and the number of results.\<close>

definition all_adapters :: "(world \<Rightarrow> string \<Rightarrow> int \<Rightarrow> normalized_record list option) list" where
  "all_adapters =
     [search_google_scholar, search_pubmed, search_arxiv, search_semantic_scholar_async,
      search_openalex_async]"

text \<open>The records of the items of a loop before the first item that raises.\<close>

definition kept :: "('a \<Rightarrow> 'b option) \<Rightarrow> 'a list \<Rightarrow> 'b list" where
  "kept f xs = map (\<lambda>x. the (f x)) (takeWhile (\<lambda>x. f x \<noteq> None) xs)"

text \<open>
  The adapters whose abstract is always a text, and what it is for an abstract to be a
  text of at most 500 characters.
\<close>

definition text_adapters :: "(world \<Rightarrow> string \<Rightarrow> int \<Rightarrow> normalized_record list option) list" where
  "text_adapters = [search_pubmed, search_arxiv, search_openalex_async]"

definition abstract_is_text_within_500 :: "normalized_record \<Rightarrow> bool" where
  "abstract_is_text_within_500 r = (case abstract r of PStr s \<Rightarrow> length s \<le> 500 | _ \<Rightarrow> False)"

text \<open>
  The items a generator yields before it is exhausted or fails, and the records the loop
  of the Google Scholar adapter appends for a list of fetched items: it stops at the first
  item that has no record, and after the first record whose title cannot be sliced.
\<close>

fun yielded :: "'a generator \<Rightarrow> 'a list" where
  "yielded Exhausted = []"
| "yielded Fails = []"
| "yielded (Yields x rest) = x # yielded rest"

fun scholar_kept :: "world \<Rightarrow> pyval list \<Rightarrow> normalized_record list" where
  "scholar_kept w [] = []"
| "scholar_kept w (pub # rest) =
     (case scholar_record w pub of
        None \<Rightarrow> []
      | Some r \<Rightarrow> r # (case py_slice 50 (title r) of None \<Rightarrow> [] | Some _ \<Rightarrow> scholar_kept w rest))"

text \<open>
  The id list of a PubMed search response, and the items of a Semantic Scholar or OpenAlex
  response (under the key \<^verbatim>\<open>data\<close> or \<^verbatim>\<open>results\<close>); \<open>None\<close> when the response is malformed.
\<close>

definition esearch_ids :: "pyval \<Rightarrow> pyval option" where
  "esearch_ids body = do { r \<leftarrow> py_get body ''esearchresult'' (PDict []); py_get r ''idlist'' (PList []) }"

definition response_items :: "string \<Rightarrow> pyval \<Rightarrow> pyval list option" where
  "response_items k body = do { d \<leftarrow> py_get body k (PList []); py_iter d }"

text \<open>
  An inverted abstract index, word by word with the 0-based positions of the word, as the
  JSON value OpenAlex delivers. Every word of an inverted index has a position, and no
  position belongs to two words.
\<close>

definition index_val :: "(string \<times> nat list) list \<Rightarrow> pyval" where
  "index_val ix = PDict (map (\<lambda>kv. (fst kv, PList (map (\<lambda>p. PInt (int p)) (snd kv)))) ix)"

definition positions_of :: "(string \<times> nat list) list \<Rightarrow> nat set" where
  "positions_of ix = (\<Union>kv\<in>set ix. set (snd kv))"

definition is_inverted_index :: "(string \<times> nat list) list \<Rightarrow> bool" where
  "is_inverted_index ix \<longleftrightarrow>
     ix \<noteq> [] \<and> (\<forall>kv\<in>set ix. snd kv \<noteq> []) \<and>
     (\<forall>kv\<in>set ix. \<forall>kv'\<in>set ix. set (snd kv) \<inter> set (snd kv') \<noteq> {} \<longrightarrow> fst kv = fst kv')"

text \<open>Writing one word of the index at each of its positions.\<close>

definition put_word :: "string \<times> nat list \<Rightarrow> string list \<Rightarrow> string list" where
  "put_word kv ws = fold (\<lambda>p ws. ws[p := fst kv]) (snd kv) ws"

section \<open>Sample responses\<close>

text \<open>
  Concrete upstream responses and worlds, on which the statements below are evaluated.
  \<open>str_of_scalar\<close> is \<^verbatim>\<open>str()\<close> on \<open>None\<close>, booleans, integers and strings, the only values
  the samples pass to it.
\<close>

fun dec_nat :: "nat \<Rightarrow> string" where
  "dec_nat n = (if n < 10 then [char_of (48 + n)] else dec_nat (n div 10) @ [char_of (48 + n mod 10)])"

declare dec_nat.simps [simp del]

fun str_of_scalar :: "pyval \<Rightarrow> string" where
  "str_of_scalar PNone = ''None''"
| "str_of_scalar (PBool b) = (if b then ''True'' else ''False'')"
| "str_of_scalar (PInt i) = (if i < 0 then ''-'' @ dec_nat (nat (- i)) else dec_nat (nat i))"
| "str_of_scalar (PStr s) = s"
| "str_of_scalar _ = []"

definition sample_entry :: xml where
  "sample_entry =
     Element (atom ''entry'') None
       [Element (atom ''id'') (Some ''http://arxiv.org/abs/1901.00596v4'') [],
        Element (atom ''published'') (Some ''2019-01-03T03:20:55Z'') [],
        Element (atom ''title'') (Some '' A Survey on Graph Neural Networks '') [],
        Element (atom ''summary'') (Some ''Deep learning on graphs.'') [],
        Element (atom ''author'') None [Element (atom ''name'') (Some ''Zonghan Wu'') []],
        Element (atom ''author'') None [Element (atom ''name'') (Some ''Shirui Pan'') []]]"

definition sample_record :: normalized_record where
  "sample_record =
     \<lparr>source = ''arXiv'', title = PStr ''A Survey on Graph Neural Networks'',
      authors = ''Zonghan Wu, Shirui Pan'', year = PStr ''2019'',
      abstract = PStr ''Deep learning on graphs.'',
      url = PStr ''http://arxiv.org/abs/1901.00596v4'', citations = PStr ''N/A'',
      venue = PStr ''arXiv Preprint''\<rparr>"

text \<open>An entry whose author has no \<^verbatim>\<open>name\<close> element.\<close>

definition nameless_entry :: xml where
  "nameless_entry =
     Element (atom ''entry'') None
       [Element (atom ''title'') (Some ''Untitled'') [],
        Element (atom ''author'') None []]"

text \<open>An arXiv that sends as many entries as \<^verbatim>\<open>max_results\<close> asks for.\<close>

definition arxiv_feed :: "nat \<Rightarrow> xml" where
  "arxiv_feed n = Element (atom ''feed'') None (replicate n sample_entry)"

definition sample_paper :: pyval where
  "sample_paper =
     PDict [(''paperId'', PStr ''p1''),
            (''title'', PStr ''Semi-Supervised Classification''),
            (''authors'', PList [PDict [(''authorId'', PStr ''1''), (''name'', PStr ''Thomas Kipf'')],
                                 PDict [(''authorId'', PStr ''2''), (''name'', PStr ''Max Welling'')]]),
            (''year'', PInt 2017),
            (''abstract'', PNone),
            (''citationCount'', PInt 100),
            (''url'', PStr ''https://www.semanticscholar.org/paper/p1''),
            (''venue'', PStr ''ICLR'')]"

definition sample_authorship :: "string \<Rightarrow> pyval" where
  "sample_authorship name = PDict [(''author'', PDict [(''display_name'', PStr name)])]"

definition sample_index :: pyval where
  "sample_index = PDict [(''deep'', PList [PInt 0, PInt 2]), (''learning'', PList [PInt 1])]"

definition sample_work :: pyval where
  "sample_work =
     PDict [(''id'', PStr ''https://openalex.org/W1''),
            (''title'', PStr ''Deep learning''),
            (''publication_year'', PInt 2015),
            (''cited_by_count'', PInt 7),
            (''authorships'', PList (map sample_authorship [''Ada'', ''Bob'', ''Cy'', ''Di'', ''Ed'', ''Flo''])),
            (''abstract_inverted_index'', sample_index)]"

definition sample_pubmed_set :: xml where
  "sample_pubmed_set =
     Element ''PubmedArticleSet'' None
       [Element ''PubmedArticle'' None
          [Element ''MedlineCitation'' None
             [Element ''PMID'' (Some ''123'') [],
              Element ''Article'' None
                [Element ''Journal'' None
                   [Element ''JournalIssue'' None
                      [Element ''PubDate'' None [Element ''Year'' (Some ''2020'') []]]],
                 Element ''ArticleTitle'' (Some ''Graphs in medicine'') [],
                 Element ''Abstract'' None [Element ''AbstractText'' (Some ''A study.'') []],
                 Element ''AuthorList'' None
                   [Element ''Author'' None
                      [Element ''LastName'' (Some ''Doe'') [],
                       Element ''ForeName'' (Some ''Jane'') []]]]]]]"

definition sample_pub :: pyval where
  "sample_pub =
     PDict [(''bib'', PDict [(''title'', PStr ''Graph attention networks''),
                             (''author'', PList [PStr ''P Velickovic'', PStr ''G Cucurull'']),
                             (''pub_year'', PStr ''2018''),
                             (''abstract'', PStr ''We present graph attention networks.''),
                             (''venue'', PStr ''ICLR'')]),
            (''pub_url'', PStr ''https://arxiv.org/abs/1710.10903''),
            (''num_citations'', PInt 3)]"

text \<open>A world without a cache backend in which every source answers.\<close>

definition sample_world :: world where
  "sample_world =
     \<lparr>py_str = str_of_scalar,
      json_dumps = (\<lambda>e. None),
      json_loads = (\<lambda>s. None),
      now_isoformat = ''2024-05-01T12:00:00'',
      clock = 1000,
      redis_client = None,
      search_pubs = (\<lambda>q. Inr (Yields sample_pub Exhausted)),
      esearch = (\<lambda>q n. Inr (PDict [(''esearchresult'', PDict [(''idlist'', PList [PStr ''123''])])])),
      efetch = (\<lambda>ids. Inr sample_pubmed_set),
      arxiv_api = (\<lambda>q n. Inr (arxiv_feed (nat n))),
      semantic_api = (\<lambda>q n. Inr (PDict [(''total'', PInt 1), (''data'', PList [sample_paper])])),
      openalex_api = (\<lambda>q n. Inr (PDict [(''results'', PList [sample_work])]))\<rparr>"

text \<open>The same world with an arXiv feed whose second entry is malformed.\<close>

definition malformed_world :: world where
  "malformed_world =
     sample_world\<lparr>arxiv_api := (\<lambda>q n. Inr (Element (atom ''feed'') None
                                              [sample_entry, nameless_entry, sample_entry]))\<rparr>"

text \<open>
  The same world with a cache backend that holds one envelope, stored at time 500 for the
  query \<^verbatim>\<open>graph neural networks\<close> and the source \<^verbatim>\<open>arxiv\<close>; \<open>stored_text\<close> stands for its
  JSON text.
\<close>

definition stored_envelope :: envelope where
  "stored_envelope =
     \<lparr>query = ''graph neural networks'', timestamp = ''2024-05-01T11:51:40'',
      sources = [(''arxiv'', [sample_record])], total_results = 1\<rparr>"

definition stored_text :: string where
  "stored_text = ''{...}''"

definition cached_world :: world where
  "cached_world =
     sample_world
       \<lparr>json_loads := (\<lambda>s. if s = stored_text then Some stored_envelope else None),
        redis_client := Some \<lparr>entries = [(''40fdfdba9657517a7dafcb161f551a21'', stored_text, 500 + 86400)],
                              reachable = True\<rparr>\<rparr>"

text \<open>An arXiv entry whose summary has 600 characters, and the world that delivers it.\<close>

definition long_entry :: xml where
  "long_entry =
     Element (atom ''entry'') None
       [Element (atom ''title'') (Some ''Long'') [],
        Element (atom ''summary'') (Some (replicate 600 (CHR ''x''))) []]"

definition long_world :: world where
  "long_world = sample_world\<lparr>arxiv_api := (\<lambda>q n. Inr (Element (atom ''feed'') None [long_entry]))\<rparr>"

text \<open>
  A Semantic Scholar paper whose abstract is a list holding one text of 1000 characters,
  and the world that delivers it.
\<close>

definition list_paper :: pyval where
  "list_paper =
     PDict [(''title'', PStr ''Listed''), (''abstract'', PList [PStr (replicate 1000 (CHR ''x''))])]"

definition list_world :: world where
  "list_world = sample_world\<lparr>semantic_api := (\<lambda>q n. Inr (PDict [(''data'', PList [list_paper])]))\<rparr>"

text \<open>A Google Scholar whose generator fails at the third fetch.\<close>

definition later_fetch_world :: world where
  "later_fetch_world =
     sample_world\<lparr>search_pubs := (\<lambda>q. Inr (Yields sample_pub (Yields sample_pub Fails)))\<rparr>"

text \<open>A PubMed whose search answers and whose fetch of the ids found times out.\<close>

definition fetch_fails_world :: world where
  "fetch_fails_world =
     sample_world\<lparr>efetch := (\<lambda>ids. if ids = ''123'' then Inl Timeout else Inr sample_pubmed_set)\<rparr>"

text \<open>
  A world with an empty, reachable cache backend. \<open>two_source_text\<close> stands for the JSON text of
  the envelope for the query \<^verbatim>\<open>graph neural networks\<close> and the sources \<^verbatim>\<open>arxiv\<close> and \<^verbatim>\<open>pubmed\<close>,
  and \<^verbatim>\<open>json.loads\<close> gives that envelope back. \<open>after_store_world\<close> is the world after the
  request for these two sources.
\<close>

definition two_source_envelope :: envelope where
  "two_source_envelope =
     fst (assemble (the_adapters sample_world) sample_world ''graph neural networks''
            [''arxiv'', ''pubmed''])"

definition two_source_text :: string where
  "two_source_text = ''{... ...}''"

definition fresh_cache_world :: world where
  "fresh_cache_world =
     sample_world
       \<lparr>json_dumps := (\<lambda>e. Some two_source_text),
        json_loads := (\<lambda>s. if s = two_source_text then Some two_source_envelope else None),
        redis_client := Some \<lparr>entries = [], reachable = True\<rparr>\<rparr>"

definition after_store_world :: world where
  "after_store_world =
     fresh_cache_world
       \<lparr>redis_client :=
          snd (snd (search_all_sources fresh_cache_world ''graph neural networks''
                      (Some [''arxiv'', ''pubmed''])))\<rparr>"

text \<open>The same world when no source can be reached.\<close>

definition offline_world :: world where
  "offline_world =
     sample_world
       \<lparr>search_pubs := (\<lambda>q. Inl Transport_error),
        esearch := (\<lambda>q n. Inl Timeout),
        efetch := (\<lambda>ids. Inl Timeout),
        arxiv_api := (\<lambda>q n. Inl Parse_error),
        semantic_api := (\<lambda>q n. Inl Transport_error),
        openalex_api := (\<lambda>q n. Inl Timeout)\<rparr>"

section \<open>MD5: evaluation\<close>

lemma replicate_numeral: "replicate (numeral k) x = x # replicate (pred_numeral k) x"
  by (simp add: numeral_eq_Suc)

lemmas md5_eval = md5_hexdigest_def md5_digest_def utf8_def md5_pad_def le_bytes_def
  replicate_numeral upt_conv_Cons md5_F_def md5_g_def md5_K_def md5_S_def u32_def
  not32_def rotl32_def hex_le_def hex_byte_def

text \<open>The test suite of RFC 1321 (in part), with an input of two blocks.\<close>

lemma md5_empty: "md5_hexdigest [] = ''d41d8cd98f00b204e9800998ecf8427e''"
  by (simp add: md5_eval)

lemma md5_abc: "md5_hexdigest ''abc'' = ''900150983cd24fb0d6963f7d28e17f72''"
  by (simp add: md5_eval)

lemma md5_digits:
  "md5_hexdigest ''12345678901234567890123456789012345678901234567890123456789012345678901234567890''
     = ''57edf4a22be3c955ac49da2e2107b67a''"
  by (simp add: md5_eval)

text \<open>The keys of three source lists for one query.\<close>

lemma sort_arxiv: "sort [''arxiv''] = [''arxiv'']"
  by simp

lemma cache_key_graph_arxiv:
  "cache_key ''graph neural networks'' [''arxiv''] = ''40fdfdba9657517a7dafcb161f551a21''"
  unfolding cache_key_def sort_arxiv by (simp add: md5_eval)

section \<open>The aggregator: slots, counts and order of the calls\<close>

lemma update_fresh: "k \<notin> fst ` set al \<Longrightarrow> AList.update k v al = al @ [(k, v)]"
  by (induction al) auto

lemma await_source_fresh:
  assumes "name \<notin> fst ` set (sources results)"
  shows "await_source name outcome (results, trace) =
    (results\<lparr>sources := sources results @ [(name, results_of outcome)],
            total_results := total_results results + int (length (results_of outcome))\<rparr>,
     trace @ [Started name, Finished name])"
  using assms by (cases outcome) (simp_all add: await_source_def results_of_def update_fresh)

lemma assemble_sources:
  "sources (fst (assemble ad w q srcs)) =
     map (\<lambda>n. (n, results_of (adapter_of ad n q))) (filter (\<lambda>n. n \<in> set srcs) handling_order)"
  by (simp add: assemble_def Let_def make_tasks_def await_source_fresh handling_order_def adapter_of_def)

lemma assemble_total:
  "total_results (fst (assemble ad w q srcs)) =
     (\<Sum>s\<leftarrow>sources (fst (assemble ad w q srcs)). int (length (snd s)))"
  by (simp add: assemble_def Let_def make_tasks_def await_source_fresh)

lemma assemble_trace:
  "snd (assemble ad w q srcs) =
     map Created (filter (\<lambda>n. n \<in> set srcs) [''semantic'', ''openalex'']) @
     concat (map (\<lambda>n. [Started n, Finished n]) (filter (\<lambda>n. n \<in> set srcs) handling_order))"
  by (simp add: assemble_def Let_def make_tasks_def await_source_fresh handling_order_def)

lemma assemble_query_timestamp:
  "query (fst (assemble ad w q srcs)) = q \<and> timestamp (fst (assemble ad w q srcs)) = now_isoformat w"
  by (simp add: assemble_def Let_def make_tasks_def await_source_fresh)

lemma assemble_names:
  "fst ` set (sources (fst (assemble ad w q srcs))) = set srcs \<inter> set all_sources"
  by (auto simp add: assemble_sources handling_order_def all_sources_def)

lemma search_all_sources_with_cases:
  "search_all_sources_with ad w q sources_arg =
     (case cache_lookup w (cache_key q (selected_sources sources_arg)) of
        Some cached \<Rightarrow> (cached, [], redis_client w)
      | None \<Rightarrow> (fst (assemble ad w q (selected_sources sources_arg)),
                 snd (assemble ad w q (selected_sources sources_arg)),
                 cache_store w (cache_key q (selected_sources sources_arg))
                   (fst (assemble ad w q (selected_sources sources_arg)))))"
  by (simp add: search_all_sources_with_def Let_def split: option.splits prod.splits)

lemma cache_lookup_hit:
  assumes "redis_client w = Some r" and "reachable r"
    and "map_of (entries r) k = Some (txt, expires)" and "clock w < expires"
    and "txt \<noteq> []"
  shows "cache_lookup w k = json_loads w txt"
  using assms by (simp add: cache_lookup_def redis_get_def)

lemma cache_lookup_no_backend: "redis_client w = None \<Longrightarrow> cache_lookup w k = None"
  by (simp add: cache_lookup_def)

text \<open>
  Claim C1. The envelope returned by \<^verbatim>\<open>search_all_sources\<close> has \<^verbatim>\<open>total_results\<close> equal to the sum
  of the lengths of the lists in \<^verbatim>\<open>sources\<close>, for every query, every source list and all
  adapters, also adapters that raise and get the empty list. On a cache hit the envelope
  is the stored one, so the stored one has to have the property.
\<close>

theorem total_results_is_sum_of_counts:
  assumes "\<forall>c. cache_lookup w (cache_key q (selected_sources sources_arg)) = Some c
             \<longrightarrow> total_results c = (\<Sum>s\<leftarrow>sources c. int (length (snd s)))"
  shows "total_results (fst (search_all_sources_with ad w q sources_arg)) =
           (\<Sum>s\<leftarrow>sources (fst (search_all_sources_with ad w q sources_arg)). int (length (snd s)))
         \<and> total_results (fst (search_all_sources w q sources_arg)) =
           (\<Sum>s\<leftarrow>sources (fst (search_all_sources w q sources_arg)). int (length (snd s)))"
  using assms assemble_total
  by (simp add: search_all_sources_def search_all_sources_with_cases split: option.splits)

text \<open>
  In the sample world, with a Google Scholar adapter that raises: its slot is empty and
  the total counts the one record of Semantic Scholar.
\<close>

theorem total_results_is_sum_of_counts_witness:
  "map (\<lambda>s. (fst s, length (snd s)))
     (sources (fst (search_all_sources_with ((the_adapters sample_world)\<lparr>scholar := (\<lambda>q. None)\<rparr>)
        sample_world ''graph neural networks'' (Some [''scholar'', ''semantic'']))))
     = [(''semantic'', 1), (''scholar'', 0)]
   \<and> total_results (fst (search_all_sources_with ((the_adapters sample_world)\<lparr>scholar := (\<lambda>q. None)\<rparr>)
        sample_world ''graph neural networks'' (Some [''scholar'', ''semantic''])))
     = (\<Sum>s\<leftarrow>sources (fst (search_all_sources_with
            ((the_adapters sample_world)\<lparr>scholar := (\<lambda>q. None)\<rparr>)
            sample_world ''graph neural networks'' (Some [''scholar'', ''semantic'']))).
          int (length (snd s)))"
proof -
  have miss: "cache_lookup sample_world k = None" for k
    by (simp add: cache_lookup_no_backend sample_world_def)
  have "map (\<lambda>s. (fst s, length (snd s)))
     (sources (fst (assemble ((the_adapters sample_world)\<lparr>scholar := (\<lambda>q. None)\<rparr>)
        sample_world ''graph neural networks'' [''scholar'', ''semantic''])))
     = [(''semantic'', 1), (''scholar'', 0)]"
    by code_simp
  then have slots: "map (\<lambda>s. (fst s, length (snd s)))
     (sources (fst (search_all_sources_with ((the_adapters sample_world)\<lparr>scholar := (\<lambda>q. None)\<rparr>)
        sample_world ''graph neural networks'' (Some [''scholar'', ''semantic'']))))
     = [(''semantic'', 1), (''scholar'', 0)]"
    by (simp add: search_all_sources_with_cases miss selected_sources_def)
  from total_results_is_sum_of_counts
         [of sample_world "''graph neural networks''" "Some [''scholar'', ''semantic'']"
             "(the_adapters sample_world)\<lparr>scholar := (\<lambda>q. None)\<rparr>"]
       miss slots
  show ?thesis by simp
qed

text \<open>
  Claim C3. When a cache backend is configured and reachable and holds, under the key of
  the query and the source list, a text that has not expired, is not empty and that
  \<^verbatim>\<open>json.loads\<close> accepts, \<^verbatim>\<open>search_all_sources\<close> returns the envelope that text denotes, with
  its stored timestamp, does nothing with any adapter (whatever the adapters are) and
  leaves the backend as it is; a second call before the expiry, whatever the sources would
  answer then, returns the same envelope.
\<close>

theorem cache_hit_returns_stored_envelope:
  assumes "redis_client w = Some r" and "reachable r"
    and "map_of (entries r) (cache_key q (selected_sources sources_arg)) = Some (txt, expires)"
    and "txt \<noteq> []" and "json_loads w txt = Some stored"
    and "clock w < expires"
    and "redis_client w' = Some r" and "json_loads w' = json_loads w" and "clock w' < expires"
  shows "search_all_sources_with ad w q sources_arg = (stored, [], Some r)
         \<and> search_all_sources w q sources_arg = (stored, [], Some r)
         \<and> search_all_sources w' q sources_arg = (stored, [], Some r)"
proof -
  let ?k = "cache_key q (selected_sources sources_arg)"
  have "cache_lookup w ?k = Some stored"
    using cache_lookup_hit [OF assms(1,2,3) assms(6) assms(4)] assms(5) by simp
  moreover have "cache_lookup w' ?k = Some stored"
    using cache_lookup_hit [OF assms(7) assms(2) assms(3) assms(9) assms(4)] assms(5,8) by simp
  ultimately show ?thesis
    using assms(1,7) by (simp add: search_all_sources_def search_all_sources_with_cases)
qed

text \<open>
  On the sample backend: the call at time 1000 and a call at time 80000, when arXiv would
  time out, both return the envelope stored at time 500.
\<close>

theorem cache_hit_returns_stored_envelope_witness:
  "search_all_sources cached_world ''graph neural networks'' (Some [''arxiv''])
     = (stored_envelope, [], redis_client cached_world)
   \<and> search_all_sources (cached_world\<lparr>clock := 80000, arxiv_api := (\<lambda>q n. Inl Timeout)\<rparr>)
        ''graph neural networks'' (Some [''arxiv''])
     = (stored_envelope, [], redis_client cached_world)
   \<and> timestamp stored_envelope = ''2024-05-01T11:51:40''"
proof -
  let ?r = "\<lparr>entries = [(''40fdfdba9657517a7dafcb161f551a21'', stored_text, 500 + 86400)],
             reachable = True\<rparr>"
  let ?w' = "cached_world\<lparr>clock := 80000, arxiv_api := (\<lambda>q n. Inl Timeout)\<rparr>"
  have 1: "redis_client cached_world = Some ?r" by (simp add: cached_world_def)
  have 2: "reachable ?r" by simp
  have 3: "map_of (entries ?r) (cache_key ''graph neural networks''
              (selected_sources (Some [''arxiv'']))) = Some (stored_text, 500 + 86400)"
    by (simp add: selected_sources_def cache_key_graph_arxiv)
  have 4: "stored_text \<noteq> []" by (simp add: stored_text_def)
  have 5: "json_loads cached_world stored_text = Some stored_envelope"
    by (simp add: cached_world_def)
  have 6: "clock cached_world < 500 + 86400" by (simp add: cached_world_def sample_world_def)
  have 7: "redis_client ?w' = Some ?r" by (simp add: cached_world_def)
  have 8: "json_loads ?w' = json_loads cached_world" by simp
  have 9: "clock ?w' < 500 + 86400" by simp
  from cache_hit_returns_stored_envelope [OF 1 2 3 4 5 6 7 8 9] 1
  show ?thesis by (simp add: stored_envelope_def)
qed

text \<open>
  The entry a miss writes lives for 86400 seconds, and a later call inside that window
  returns the envelope the miss returned, provided \<^verbatim>\<open>json.loads\<close> inverts \<^verbatim>\<open>json.dumps\<close> on it.
\<close>

lemma cache_store_entry:
  assumes "redis_client w = Some r" and "reachable r" and "json_dumps w e = Some txt"
  shows "cache_store w k e = Some (r\<lparr>entries := AList.update k (txt, clock w + 86400) (entries r)\<rparr>)"
  using assms by (simp add: cache_store_def redis_setex_def)

lemma second_call_within_ttl:
  assumes "redis_client w = Some r" and "reachable r"
    and "cache_lookup w (cache_key q (selected_sources sources_arg)) = None"
    and "search_all_sources w q sources_arg = (e, trace, r1)"
    and "json_dumps w e = Some txt" and "txt \<noteq> []"
    and "redis_client w' = r1" and "json_loads w' txt = Some e"
    and "clock w' < clock w + 86400"
  shows "search_all_sources w' q sources_arg = (e, [], r1)"
proof -
  let ?k = "cache_key q (selected_sources sources_arg)"
  let ?r1 = "r\<lparr>entries := AList.update ?k (txt, clock w + 86400) (entries r)\<rparr>"
  have e: "e = fst (assemble (the_adapters w) w q (selected_sources sources_arg))"
    and r1: "r1 = cache_store w ?k e"
    using assms(3,4) by (auto simp add: search_all_sources_def search_all_sources_with_cases)
  have r1': "r1 = Some ?r1"
    using r1 cache_store_entry [OF assms(1,2,5)] by simp
  have "cache_lookup w' ?k = json_loads w' txt"
    by (rule cache_lookup_hit [where r = ?r1 and expires = "clock w + 86400"])
       (use assms r1' in \<open>simp_all add: update_conv'\<close>)
  then show ?thesis
    using assms(7,8) by (simp add: search_all_sources_def search_all_sources_with_cases)
qed

lemma search_all_sources_miss:
  assumes "cache_lookup w (cache_key q (selected_sources sources_arg)) = None"
  shows "fst (search_all_sources w q sources_arg)
           = fst (assemble (the_adapters w) w q (selected_sources sources_arg))"
    and "snd (snd (search_all_sources w q sources_arg))
           = cache_store w (cache_key q (selected_sources sources_arg))
               (fst (assemble (the_adapters w) w q (selected_sources sources_arg)))"
  using assms by (simp_all add: search_all_sources_def search_all_sources_with_cases)

lemma search_all_sources_hit:
  assumes "cache_lookup w (cache_key q (selected_sources sources_arg)) = Some stored"
  shows "fst (search_all_sources w q sources_arg) = stored"
  using assms by (simp add: search_all_sources_def search_all_sources_with_cases)

text \<open>
  Claim C8, as amended. When the request is not answered from the cache, the \<^verbatim>\<open>sources\<close>
  mapping of the returned envelope has exactly the requested names that are among the five
  known ones, each with the list its adapter returned (the empty list when it raised); a
  name that is not known is left out without an error, and a request without a source list
  selects all five. A request answered from the cache gets the stored envelope as it is.
\<close>

theorem sources_are_the_requested_known_names:
  "(cache_lookup w (cache_key q (selected_sources sources_arg)) = None \<longrightarrow>
      sources (fst (search_all_sources w q sources_arg)) =
        map (\<lambda>name. (name, results_of (adapter_of (the_adapters w) name q)))
          (filter (\<lambda>name. name \<in> set (selected_sources sources_arg)) handling_order)
      \<and> fst ` set (sources (fst (search_all_sources w q sources_arg))) =
          set (selected_sources sources_arg) \<inter> set all_sources)
   \<and> (cache_lookup w (cache_key q (selected_sources sources_arg)) = Some stored \<longrightarrow>
        fst (search_all_sources w q sources_arg) = stored)
   \<and> selected_sources None = all_sources
   \<and> selected_sources (Some srcs) = srcs"
  using assemble_sources assemble_names
  by (simp add: search_all_sources_miss search_all_sources_hit selected_sources_def)

lemma fresh_cache_misses: "cache_lookup fresh_cache_world k = None"
  by (simp add: cache_lookup_def redis_get_def fresh_cache_world_def)

text \<open>
  With an empty cache backend an unknown name is dropped and no list means all five; with
  the sample backend the stored envelope is returned.
\<close>

theorem sources_are_the_requested_known_names_witness:
  "cache_lookup fresh_cache_world (cache_key ''graph neural networks''
       (selected_sources (Some [''pubmed'', ''scopus'', ''arxiv'']))) = None
   \<and> fst ` set (sources (fst (search_all_sources fresh_cache_world ''graph neural networks''
       (Some [''pubmed'', ''scopus'', ''arxiv''])))) = {''pubmed'', ''arxiv''}
   \<and> fst ` set (sources (fst (search_all_sources fresh_cache_world ''graph neural networks'' None)))
       = {''scholar'', ''pubmed'', ''arxiv'', ''semantic'', ''openalex''}
   \<and> fst (search_all_sources cached_world ''graph neural networks'' (Some [''arxiv'']))
       = stored_envelope"
proof -
  have hit: "cache_lookup cached_world (cache_key ''graph neural networks''
       (selected_sources (Some [''arxiv'']))) = Some stored_envelope"
    by (simp add: selected_sources_def cache_key_graph_arxiv cache_lookup_def redis_get_def
        cached_world_def sample_world_def stored_text_def)
  have a: "fst ` set (sources (fst (search_all_sources fresh_cache_world ''graph neural networks''
       (Some [''pubmed'', ''scopus'', ''arxiv''])))) =
       set (selected_sources (Some [''pubmed'', ''scopus'', ''arxiv''])) \<inter> set all_sources"
    using sources_are_the_requested_known_names
         [of fresh_cache_world "''graph neural networks''" "Some [''pubmed'', ''scopus'', ''arxiv'']"]
       fresh_cache_misses by blast
  have b: "fst ` set (sources (fst (search_all_sources fresh_cache_world ''graph neural networks'' None)))
       = set (selected_sources None) \<inter> set all_sources"
    using sources_are_the_requested_known_names
         [of fresh_cache_world "''graph neural networks''" None]
       fresh_cache_misses by blast
  have c: "fst (search_all_sources cached_world ''graph neural networks'' (Some [''arxiv'']))
       = stored_envelope"
    using sources_are_the_requested_known_names
         [of cached_world "''graph neural networks''" "Some [''arxiv'']" stored_envelope]
       hit by blast
  have a': "set (selected_sources (Some [''pubmed'', ''scopus'', ''arxiv''])) \<inter> set all_sources
       = {''pubmed'', ''arxiv''}"
    by (auto simp add: selected_sources_def all_sources_def)
  have b': "set (selected_sources None) \<inter> set all_sources
       = {''scholar'', ''pubmed'', ''arxiv'', ''semantic'', ''openalex''}"
    by (auto simp add: selected_sources_def all_sources_def)
  from a b c a' b' fresh_cache_misses show ?thesis by simp
qed

lemma sort_arxiv_pubmed: "sort [''arxiv'', ''pubmed''] = [''arxiv'', ''pubmed'']"
  by code_simp

lemma sort_joined_name: "sort [''arxiv,pubmed''] = [''arxiv,pubmed'']"
  by simp

lemma key_of_joined_name:
  "cache_key q [''arxiv,pubmed''] = cache_key q [''arxiv'', ''pubmed'']"
  unfolding cache_key_def sort_arxiv_pubmed sort_joined_name by simp

lemma fresh_answer:
  "fst (assemble (the_adapters fresh_cache_world) fresh_cache_world ''graph neural networks''
          [''arxiv'', ''pubmed'']) = two_source_envelope"
  by code_simp

lemma two_source_names: "map fst (sources two_source_envelope) = [''pubmed'', ''arxiv'']"
  by code_simp

text \<open>
  Claim C8, as stated, fails. The key is the digest of the query, a colon and the sorted
  names joined by commas, so the list with the single unknown name \<^verbatim>\<open>arxiv,pubmed\<close> has the
  key of the list of \<^verbatim>\<open>arxiv\<close> and \<^verbatim>\<open>pubmed\<close>. After the request for these two sources has
  stored its envelope, the request for the unknown name is answered from the cache, with
  the slots of arXiv and PubMed, though none of its names is known.
\<close>

theorem unknown_name_is_served_a_stored_envelope:
  "fst (search_all_sources fresh_cache_world ''graph neural networks'' (Some [''arxiv'', ''pubmed'']))
     = two_source_envelope
   \<and> fst ` set (sources (fst (search_all_sources after_store_world ''graph neural networks''
         (Some [''arxiv,pubmed''])))) = {''pubmed'', ''arxiv''}
   \<and> set (selected_sources (Some [''arxiv,pubmed''])) \<inter> set all_sources = {}"
proof -
  let ?q = "''graph neural networks''"
  let ?k = "cache_key ?q [''arxiv'', ''pubmed'']"
  let ?r0 = "\<lparr>entries = [], reachable = True\<rparr>"
  let ?r1 = "?r0\<lparr>entries := AList.update ?k (two_source_text, clock fresh_cache_world + 86400) (entries ?r0)\<rparr>"
  have first: "fst (search_all_sources fresh_cache_world ?q (Some [''arxiv'', ''pubmed'']))
     = two_source_envelope"
    using search_all_sources_miss(1) [OF fresh_cache_misses, of ?q "Some [''arxiv'', ''pubmed'']"]
    by (simp add: selected_sources_def fresh_answer)
  have "cache_store fresh_cache_world ?k two_source_envelope = Some ?r1"
    by (rule cache_store_entry) (simp_all add: fresh_cache_world_def)
  then have stored: "redis_client after_store_world = Some ?r1"
    using search_all_sources_miss(2) [OF fresh_cache_misses, of ?q "Some [''arxiv'', ''pubmed'']"]
    by (simp add: after_store_world_def selected_sources_def fresh_answer)
  have "cache_lookup after_store_world ?k = json_loads after_store_world two_source_text"
    by (rule cache_lookup_hit [OF stored, where expires = "clock fresh_cache_world + 86400"])
       (simp_all add: after_store_world_def two_source_text_def)
  then have "cache_lookup after_store_world (cache_key ?q (selected_sources (Some [''arxiv,pubmed''])))
      = Some two_source_envelope"
    by (simp add: selected_sources_def key_of_joined_name after_store_world_def
        fresh_cache_world_def)
  then have second: "fst (search_all_sources after_store_world ?q (Some [''arxiv,pubmed'']))
      = two_source_envelope"
    by (rule search_all_sources_hit)
  have names: "fst ` set (sources two_source_envelope) = {''pubmed'', ''arxiv''}"
    using two_source_names by (metis list.set_map list.simps(15) empty_set)
  have none: "set (selected_sources (Some [''arxiv,pubmed''])) \<inter> set all_sources = {}"
    by (simp add: selected_sources_def all_sources_def)
  from first second names none show ?thesis by simp
qed

text \<open>
  Claim C5. The aggregator must not make the completion of one adapter a precondition for
  the start of another. The code creates the two coroutines together but awaits them in a
  \<^verbatim>\<open>for\<close> loop, and awaits each \<^verbatim>\<open>asyncio.to_thread\<close> call before it issues the next: for a
  request without a source list, in a world where every source answers, each adapter
  starts after the one before it has finished.
\<close>

theorem sources_are_awaited_one_after_another:
  "fst (snd (search_all_sources sample_world ''graph neural networks'' None)) =
     [Created ''semantic'', Created ''openalex'',
      Started ''semantic'', Finished ''semantic'',
      Started ''openalex'', Finished ''openalex'',
      Started ''scholar'', Finished ''scholar'',
      Started ''pubmed'', Finished ''pubmed'',
      Started ''arxiv'', Finished ''arxiv'']"
proof -
  have "cache_lookup sample_world k = None" for k
    by (simp add: cache_lookup_no_backend sample_world_def)
  then show ?thesis
    by (simp add: search_all_sources_def search_all_sources_with_cases assemble_trace
        selected_sources_def all_sources_def handling_order_def)
qed

section \<open>The adapters: what they return\<close>

lemma loop_append_prefix:
  "loop_append f xs acc = (acc @ kept f xs, \<exists>x\<in>set xs. f x = None)"
  by (induction xs arbitrary: acc) (auto simp add: kept_def split: option.splits)

lemma loop_append_member:
  assumes "r \<in> set (fst (loop_append f xs []))"
  shows "\<exists>x. f x = Some r"
proof -
  from assms obtain x where "x \<in> set (takeWhile (\<lambda>x. f x \<noteq> None) xs)" and "r = the (f x)"
    by (auto simp add: loop_append_prefix kept_def)
  then have "f x \<noteq> None" by (auto dest: set_takeWhileD)
  with \<open>r = the (f x)\<close> show ?thesis by auto
qed

lemma scholar_loop_member:
  assumes "r \<in> set (fst (scholar_loop w n i g acc))"
  shows "r \<in> set acc \<or> (\<exists>pub. scholar_record w pub = Some r)"
  using assms
proof (induction w n i g acc rule: scholar_loop.induct)
  case (3 w num_results i pub rest results)
  show ?case
  proof (cases "i \<ge> num_results")
    case True
    with 3 show ?thesis by simp
  next
    case False
    show ?thesis
    proof (cases "scholar_record w pub")
      case None
      with False 3 show ?thesis by simp
    next
      case (Some x)
      show ?thesis
      proof (cases "py_slice 50 (title x)")
        case None
        with False Some 3(2) show ?thesis by auto
      next
        case (Some y)
        with False \<open>scholar_record w pub = Some x\<close> 3(2)
        have "r \<in> set (fst (scholar_loop w num_results (i + 1) rest (results @ [x])))"
          by simp
        from 3(1) [OF False \<open>scholar_record w pub = Some x\<close> Some this]
        show ?thesis using \<open>scholar_record w pub = Some x\<close> by auto
      qed
    qed
  qed
qed simp_all

lemma search_arxiv_kept:
  "arxiv_api w (''all:'' @ q) n = Inr root \<Longrightarrow>
   search_arxiv w q n = Some (kept arxiv_record (et_findall (atom ''entry'') root))"
  by (simp add: search_arxiv_def search_arxiv_try_def loop_append_prefix)

lemma py_slice_cases:
  assumes "py_slice n v = Some v'"
  shows "(\<exists>s. v = PStr s \<and> v' = PStr (take n s)) \<or> (\<exists>xs. v = PList xs \<and> v' = PList (take n xs))"
  using assms by (cases v) auto

lemma loop_append_member_item:
  assumes "r \<in> set (fst (loop_append f xs []))"
  shows "\<exists>x\<in>set xs. f x = Some r"
proof -
  from assms obtain x where x: "x \<in> set (takeWhile (\<lambda>x. f x \<noteq> None) xs)" and r: "r = the (f x)"
    by (auto simp add: loop_append_prefix kept_def)
  from x have "f x \<noteq> None" and "x \<in> set xs" by (auto dest: set_takeWhileD)
  with r show ?thesis by auto
qed

lemma map_filter_member_item: "r \<in> set (List.map_filter f xs) \<Longrightarrow> \<exists>x\<in>set xs. f x = Some r"
  by (auto simp add: List.map_filter_def)

lemma scholar_kept_member:
  "r \<in> set (scholar_kept w pubs) \<Longrightarrow> \<exists>pub\<in>set pubs. scholar_record w pub = Some r"
  by (induction pubs) (auto split: option.splits)

lemma scholar_loop_kept:
  "fst (scholar_loop w n i g acc) = acc @ scholar_kept w (take (nat (n - i)) (yielded g))"
proof (induction w n i g acc rule: scholar_loop.induct)
  case (3 w num_results i pub rest results)
  show ?case
  proof (cases "i \<ge> num_results")
    case True
    then show ?thesis by simp
  next
    case False
    then have n: "nat (num_results - i) = Suc (nat (num_results - (i + 1)))" by simp
    show ?thesis
    proof (cases "scholar_record w pub")
      case None
      with False show ?thesis by (simp add: n)
    next
      case (Some r)
      show ?thesis
      proof (cases "py_slice 50 (title r)")
        case None
        with False Some show ?thesis by (simp add: n)
      next
        case (Some y)
        with False \<open>scholar_record w pub = Some r\<close> 3 [OF False \<open>scholar_record w pub = Some r\<close> Some]
        show ?thesis by (simp add: n)
      qed
    qed
  qed
qed simp_all

lemma search_google_scholar_kept:
  "search_pubs w q = Inr g \<Longrightarrow>
   search_google_scholar w q n = Some (scholar_kept w (take (nat n) (yielded g)))"
  by (simp add: search_google_scholar_def search_google_scholar_try_def scholar_loop_kept)

lemma search_google_scholar_failed:
  "isl (search_pubs w q) \<Longrightarrow> search_google_scholar w q n = Some []"
  by (auto simp add: search_google_scholar_def search_google_scholar_try_def isl_def)

lemma search_pubmed_failed: "isl (esearch w q n) \<Longrightarrow> search_pubmed w q n = Some []"
  by (auto simp add: search_pubmed_def search_pubmed_try_def isl_def)

lemma search_pubmed_no_ids:
  assumes "esearch w q n = Inr body"
    and "esearch_ids body = None \<or> (\<exists>ids. esearch_ids body = Some ids \<and>
           (\<not> truthy ids \<or> py_join_val '','' ids = None))"
  shows "search_pubmed w q n = Some []"
  using assms by (auto simp add: search_pubmed_def search_pubmed_try_def esearch_ids_def)

lemma search_pubmed_fetched:
  assumes "esearch w q n = Inr body" and "esearch_ids body = Some ids" and "truthy ids"
    and "py_join_val '','' ids = Some id_list"
  shows "search_pubmed w q n =
           Some (case efetch w id_list of
                   Inl f \<Rightarrow> []
                 | Inr root \<Rightarrow> List.map_filter pubmed_record (findall_desc ''PubmedArticle'' root))"
  using assms
  by (auto simp add: search_pubmed_def search_pubmed_try_def esearch_ids_def split: sum.splits)

lemma search_arxiv_failed:
  "isl (arxiv_api w (''all:'' @ q) n) \<Longrightarrow> search_arxiv w q n = Some []"
  by (auto simp add: search_arxiv_def search_arxiv_try_def isl_def)

lemma search_semantic_failed:
  "isl (semantic_api w q n) \<Longrightarrow> search_semantic_scholar_async w q n = Some []"
  by (auto simp add: search_semantic_scholar_async_def search_semantic_scholar_try_def isl_def)

lemma search_openalex_failed:
  "isl (openalex_api w q n) \<Longrightarrow> search_openalex_async w q n = Some []"
  by (auto simp add: search_openalex_async_def search_openalex_try_def isl_def)

lemma search_semantic_kept:
  "semantic_api w q n = Inr body \<Longrightarrow>
   search_semantic_scholar_async w q n =
     Some (case response_items ''data'' body of
             None \<Rightarrow> []
           | Some papers \<Rightarrow> kept (semantic_record w) papers)"
  by (simp add: search_semantic_scholar_async_def search_semantic_scholar_try_def
      response_items_def loop_append_prefix split: option.splits)

lemma search_openalex_kept:
  "openalex_api w q n = Inr body \<Longrightarrow>
   search_openalex_async w q n =
     Some (case response_items ''results'' body of
             None \<Rightarrow> []
           | Some works \<Rightarrow> kept (openalex_record w) works)"
  by (simp add: search_openalex_async_def search_openalex_try_def
      response_items_def loop_append_prefix split: option.splits)

lemma never_raises:
  "search \<in> set all_adapters \<Longrightarrow> \<exists>rs. search w q n = Some rs"
  by (auto simp add: all_adapters_def search_google_scholar_def search_pubmed_def
      search_arxiv_def search_semantic_scholar_async_def search_openalex_async_def)

text \<open>
  Claim C2, as amended. No adapter raises to its caller, for every input and every
  upstream behaviour. An adapter returns the empty list when the failure comes before the
  first record is appended: the request fails (transport error, timeout, a body that does
  not parse; for PubMed the search request or the fetch of the ids found; for Google
  Scholar the call of the search), or PubMed finds no usable id list. A failure at a later
  item leaves the records appended before it: arXiv, Semantic Scholar and OpenAlex return
  the records of the items before the first malformed one, Google Scholar the records of
  the items fetched before the generator failed or an item was malformed, at most
  \<^verbatim>\<open>num_results\<close>, and PubMed the records of the articles that are not malformed.
\<close>

theorem adapters_never_raise_and_keep_what_was_appended:
  "(search \<in> set all_adapters \<longrightarrow> (\<exists>rs. search w q n = Some rs))
   \<and> (isl (search_pubs w q) \<longrightarrow> search_google_scholar w q n = Some [])
   \<and> (search_pubs w q = Inr g \<longrightarrow>
        search_google_scholar w q n = Some (scholar_kept w (take (nat n) (yielded g))))
   \<and> (isl (esearch w q n) \<longrightarrow> search_pubmed w q n = Some [])
   \<and> (esearch w q n = Inr found \<and>
        (esearch_ids found = None \<or>
         (\<exists>ids. esearch_ids found = Some ids \<and> (\<not> truthy ids \<or> py_join_val '','' ids = None)))
        \<longrightarrow> search_pubmed w q n = Some [])
   \<and> (esearch w q n = Inr found \<and> esearch_ids found = Some ids \<and> truthy ids \<and>
        py_join_val '','' ids = Some id_list \<and> isl (efetch w id_list)
        \<longrightarrow> search_pubmed w q n = Some [])
   \<and> (esearch w q n = Inr found \<and> esearch_ids found = Some ids \<and> truthy ids \<and>
        py_join_val '','' ids = Some id_list \<and> efetch w id_list = Inr article_set
        \<longrightarrow> search_pubmed w q n =
              Some (List.map_filter pubmed_record (findall_desc ''PubmedArticle'' article_set)))
   \<and> (isl (arxiv_api w (''all:'' @ q) n) \<longrightarrow> search_arxiv w q n = Some [])
   \<and> (arxiv_api w (''all:'' @ q) n = Inr root \<longrightarrow>
        search_arxiv w q n = Some (kept arxiv_record (et_findall (atom ''entry'') root)))
   \<and> (isl (semantic_api w q n) \<longrightarrow> search_semantic_scholar_async w q n = Some [])
   \<and> (semantic_api w q n = Inr body \<longrightarrow>
        search_semantic_scholar_async w q n =
          Some (case response_items ''data'' body of
                  None \<Rightarrow> []
                | Some papers \<Rightarrow> kept (semantic_record w) papers))
   \<and> (isl (openalex_api w q n) \<longrightarrow> search_openalex_async w q n = Some [])
   \<and> (openalex_api w q n = Inr body' \<longrightarrow>
        search_openalex_async w q n =
          Some (case response_items ''results'' body' of
                  None \<Rightarrow> []
                | Some works \<Rightarrow> kept (openalex_record w) works))"
proof -
  have p1: "esearch w q n = Inr found \<and> esearch_ids found = Some ids \<and> truthy ids \<and>
        py_join_val '','' ids = Some id_list \<and> isl (efetch w id_list)
        \<longrightarrow> search_pubmed w q n = Some []"
    using search_pubmed_fetched [of w q n found ids id_list] by (auto simp add: isl_def)
  have p2: "esearch w q n = Inr found \<and> esearch_ids found = Some ids \<and> truthy ids \<and>
        py_join_val '','' ids = Some id_list \<and> efetch w id_list = Inr article_set
        \<longrightarrow> search_pubmed w q n =
              Some (List.map_filter pubmed_record (findall_desc ''PubmedArticle'' article_set))"
    using search_pubmed_fetched [of w q n found ids id_list] by auto
  have p3: "esearch w q n = Inr found \<and>
        (esearch_ids found = None \<or>
         (\<exists>ids. esearch_ids found = Some ids \<and> (\<not> truthy ids \<or> py_join_val '','' ids = None)))
        \<longrightarrow> search_pubmed w q n = Some []"
    using search_pubmed_no_ids [of w q n found] by blast
  have c1: "search \<in> set all_adapters \<longrightarrow> (\<exists>rs. search w q n = Some rs)"
    using never_raises by blast
  have c2: "isl (search_pubs w q) \<longrightarrow> search_google_scholar w q n = Some []"
    using search_google_scholar_failed by blast
  have c3: "search_pubs w q = Inr g \<longrightarrow>
        search_google_scholar w q n = Some (scholar_kept w (take (nat n) (yielded g)))"
    using search_google_scholar_kept by blast
  have c4: "isl (esearch w q n) \<longrightarrow> search_pubmed w q n = Some []"
    using search_pubmed_failed by blast
  have c5: "isl (arxiv_api w (''all:'' @ q) n) \<longrightarrow> search_arxiv w q n = Some []"
    using search_arxiv_failed by blast
  have c6: "arxiv_api w (''all:'' @ q) n = Inr root \<longrightarrow>
        search_arxiv w q n = Some (kept arxiv_record (et_findall (atom ''entry'') root))"
    using search_arxiv_kept by blast
  have c7: "isl (semantic_api w q n) \<longrightarrow> search_semantic_scholar_async w q n = Some []"
    using search_semantic_failed by blast
  have c8: "semantic_api w q n = Inr body \<longrightarrow>
        search_semantic_scholar_async w q n =
          Some (case response_items ''data'' body of
                  None \<Rightarrow> []
                | Some papers \<Rightarrow> kept (semantic_record w) papers)"
    using search_semantic_kept by blast
  have c9: "isl (openalex_api w q n) \<longrightarrow> search_openalex_async w q n = Some []"
    using search_openalex_failed by blast
  have c10: "openalex_api w q n = Inr body' \<longrightarrow>
        search_openalex_async w q n =
          Some (case response_items ''results'' body' of
                  None \<Rightarrow> []
                | Some works \<Rightarrow> kept (openalex_record w) works)"
    using search_openalex_kept by blast
  show ?thesis
    by (intro conjI c1 c2 c3 c4 p3 p1 p2 c5 c6 c7 c8 c9 c10)
qed

text \<open>
  Google Scholar failing at the third fetch keeps two records; PubMed whose fetch of the
  ids found times out gives the empty list; arXiv gives the empty list offline and the
  record of the first entry for the malformed feed.
\<close>

theorem adapters_never_raise_and_keep_what_was_appended_witness:
  "search_arxiv \<in> set all_adapters
   \<and> search_google_scholar later_fetch_world ''graph neural networks'' 10
       = Some (scholar_kept later_fetch_world [sample_pub, sample_pub])
   \<and> length (scholar_kept later_fetch_world [sample_pub, sample_pub]) = 2
   \<and> isl (efetch fetch_fails_world ''123'')
   \<and> search_pubmed fetch_fails_world ''graph neural networks'' 10 = Some []
   \<and> search_arxiv offline_world ''graph neural networks'' 10 = Some []
   \<and> search_arxiv malformed_world ''graph neural networks'' 10
       = Some (kept arxiv_record [sample_entry, nameless_entry, sample_entry])
   \<and> kept arxiv_record [sample_entry, nameless_entry, sample_entry] = [sample_record]"
proof -
  let ?q = "''graph neural networks''"
  let ?found = "PDict [(''esearchresult'', PDict [(''idlist'', PList [PStr ''123''])])]"
  let ?feed = "Element (atom ''feed'') None [sample_entry, nameless_entry, sample_entry]"
  have 1: "search_arxiv \<in> set all_adapters" by (simp add: all_adapters_def)
  have 2: "search_pubs later_fetch_world ?q = Inr (Yields sample_pub (Yields sample_pub Fails))"
    by (simp add: later_fetch_world_def)
  have 3: "length (scholar_kept later_fetch_world [sample_pub, sample_pub]) = 2"
    by code_simp
  have 4: "esearch fetch_fails_world ?q 10 = Inr ?found"
    by (simp add: fetch_fails_world_def sample_world_def)
  have 5: "esearch_ids ?found = Some (PList [PStr ''123''])" by code_simp
  have 6: "py_join_val '','' (PList [PStr ''123'']) = Some ''123''" by code_simp
  have 7: "isl (efetch fetch_fails_world ''123'')" by (simp add: fetch_fails_world_def)
  have 8: "isl (arxiv_api offline_world (''all:'' @ ?q) 10)" by (simp add: offline_world_def)
  have 9: "arxiv_api malformed_world (''all:'' @ ?q) 10 = Inr ?feed"
    by (simp add: malformed_world_def)
  have 10: "et_findall (atom ''entry'') ?feed = [sample_entry, nameless_entry, sample_entry]"
    by code_simp
  have 11: "kept arxiv_record [sample_entry, nameless_entry, sample_entry] = [sample_record]"
    by code_simp
  from adapters_never_raise_and_keep_what_was_appended
         [where w = later_fetch_world and q = ?q and n = 10
            and g = "Yields sample_pub (Yields sample_pub Fails)"]
       adapters_never_raise_and_keep_what_was_appended
         [where w = fetch_fails_world and q = ?q and n = 10 and found = ?found
            and ids = "PList [PStr ''123'']" and id_list = "''123''"]
       adapters_never_raise_and_keep_what_was_appended
         [where w = offline_world and q = ?q and n = 10]
       adapters_never_raise_and_keep_what_was_appended
         [where w = malformed_world and q = ?q and n = 10 and root = ?feed]
       1 2 3 4 5 6 7 8 9 10 11
  show ?thesis by simp
qed

text \<open>
  Claim C2, as stated, fails: the second entry of the malformed feed has an author without
  a name, the handler of the adapter runs, and the adapter returns the record of the first
  entry, not the empty list.
\<close>

theorem malformed_entry_keeps_earlier_records:
  "arxiv_record nameless_entry = None
   \<and> snd (search_arxiv_try malformed_world ''graph neural networks'' 10)
   \<and> search_arxiv malformed_world ''graph neural networks'' 10 = Some [sample_record]"
  by code_simp

lemma text_or_na_cases: "(\<exists>s. text_or_na e = PStr s) \<or> text_or_na e = PNone"
proof (cases e)
  case None
  then show ?thesis by (simp add: text_or_na_def)
next
  case (Some x)
  then show ?thesis by (cases "elem_text x") (simp_all add: text_or_na_def)
qed

lemma text_slice:
  assumes "py_slice 500 v = Some v'" and "(\<exists>s. v = PStr s) \<or> v = PNone"
  shows "\<exists>s. v' = PStr s \<and> length s \<le> 500"
  using assms by auto

lemma pubmed_record_abstract_text:
  assumes "pubmed_record article = Some r"
  shows "abstract_is_text_within_500 r"
proof -
  let ?ab = "text_or_na (find_desc ''AbstractText'' article)"
  from assms have "(?ab \<noteq> PStr ''N/A'' \<and> py_slice 500 ?ab = Some (abstract r))
      \<or> abstract r = PStr ''N/A''"
    by (auto simp add: pubmed_record_def Let_def bind_eq_Some_conv split: if_splits)
  then show ?thesis
  proof
    assume "?ab \<noteq> PStr ''N/A'' \<and> py_slice 500 ?ab = Some (abstract r)"
    then have "\<exists>s. abstract r = PStr s \<and> length s \<le> 500"
      using text_slice [OF _ text_or_na_cases] by blast
    then show ?thesis by (auto simp add: abstract_is_text_within_500_def)
  next
    assume "abstract r = PStr ''N/A''"
    then show ?thesis by (simp add: abstract_is_text_within_500_def)
  qed
qed

lemma stripped_or_na_text: "stripped_or_na e = Some v \<Longrightarrow> \<exists>s. v = PStr s"
  by (auto simp add: stripped_or_na_def split: option.splits)

lemma arxiv_record_abstract_text:
  assumes "arxiv_record entry = Some r"
  shows "abstract_is_text_within_500 r"
proof -
  from assms obtain summary where s: "stripped_or_na (et_find (atom ''summary'') entry) = Some summary"
    and ab: "(summary \<noteq> PStr ''N/A'' \<and> py_slice 500 summary = Some (abstract r))
      \<or> abstract r = PStr ''N/A''"
    by (auto simp add: arxiv_record_def Let_def bind_eq_Some_conv split: if_splits)
  from ab show ?thesis
  proof
    assume "summary \<noteq> PStr ''N/A'' \<and> py_slice 500 summary = Some (abstract r)"
    moreover from s have "(\<exists>t. summary = PStr t) \<or> summary = PNone"
      by (auto dest: stripped_or_na_text)
    ultimately have "\<exists>s. abstract r = PStr s \<and> length s \<le> 500"
      using text_slice by blast
    then show ?thesis by (auto simp add: abstract_is_text_within_500_def)
  next
    assume "abstract r = PStr ''N/A''"
    then show ?thesis by (simp add: abstract_is_text_within_500_def)
  qed
qed

lemma work_abstract_text:
  "work_abstract idx = Some v \<Longrightarrow> \<exists>s. v = PStr s \<and> length s \<le> 500"
  by (auto simp add: work_abstract_def split: if_splits)

lemma openalex_record_abstract_text:
  "openalex_record w work = Some r \<Longrightarrow> abstract_is_text_within_500 r"
  by (auto simp add: openalex_record_def bind_eq_Some_conv abstract_is_text_within_500_def
      dest!: work_abstract_text)

lemma text_adapters_abstract:
  assumes "search \<in> set text_adapters" and "search w q n = Some rs" and "r \<in> set rs"
  shows "abstract_is_text_within_500 r"
proof -
  consider "search = search_pubmed" | "search = search_arxiv" | "search = search_openalex_async"
    using assms(1) by (auto simp add: text_adapters_def)
  then show ?thesis
  proof cases
    case 1
    with assms(2,3) show ?thesis
      by (auto simp add: search_pubmed_def search_pubmed_try_def
          split: sum.splits option.splits if_splits
          dest!: map_filter_member_item pubmed_record_abstract_text)
  next
    case 2
    with assms(2,3) show ?thesis
      by (auto simp add: search_arxiv_def search_arxiv_try_def
          split: sum.splits dest!: loop_append_member_item arxiv_record_abstract_text)
  next
    case 3
    with assms(2,3) show ?thesis
      by (auto simp add: search_openalex_async_def search_openalex_try_def
          split: sum.splits option.splits
          dest!: loop_append_member_item openalex_record_abstract_text)
  qed
qed

lemma sliced_abstract:
  assumes "py_slice 500 v = Some v'"
  shows "case v' of PStr s \<Rightarrow> length s \<le> 500 | PList xs \<Rightarrow> length xs \<le> 500 \<and> is_list v
         | _ \<Rightarrow> False"
  using assms by (cases v) auto

lemma semantic_record_abstract_slice:
  assumes "semantic_record w paper = Some r"
  shows "\<exists>ab. py_get paper ''abstract'' (PStr ''N/A'') = Some ab
           \<and> py_slice 500 (if truthy ab then ab else PStr ''N/A'') = Some (abstract r)
           \<and> (case abstract r of PStr s \<Rightarrow> length s \<le> 500
               | PList xs \<Rightarrow> length xs \<le> 500 \<and> is_list ab | _ \<Rightarrow> False)"
proof -
  from assms obtain ab where ab: "py_get paper ''abstract'' (PStr ''N/A'') = Some ab"
    and sl: "py_slice 500 (if truthy ab then ab else PStr ''N/A'') = Some (abstract r)"
    by (auto simp add: semantic_record_def bind_eq_Some_conv simp del: py_slice.simps)
  from sliced_abstract [OF sl] have "case abstract r of PStr s \<Rightarrow> length s \<le> 500
               | PList xs \<Rightarrow> length xs \<le> 500 \<and> is_list ab | _ \<Rightarrow> False"
    by (cases "truthy ab") (auto split: pyval.splits)
  with ab sl show ?thesis by blast
qed

lemma scholar_record_abstract_slice:
  assumes "scholar_record w pub = Some r"
  shows "\<exists>bib ab. py_get pub ''bib'' (PDict []) = Some bib
           \<and> py_get bib ''abstract'' (PStr ''N/A'') = Some ab
           \<and> py_slice 500 ab = Some (abstract r)
           \<and> (case abstract r of PStr s \<Rightarrow> length s \<le> 500
               | PList xs \<Rightarrow> length xs \<le> 500 \<and> is_list ab | _ \<Rightarrow> False)"
proof -
  from assms obtain bib ab where bib: "py_get pub ''bib'' (PDict []) = Some bib"
    and ab: "py_get bib ''abstract'' (PStr ''N/A'') = Some ab"
    and sl: "py_slice 500 ab = Some (abstract r)"
    by (auto simp add: scholar_record_def bind_eq_Some_conv simp del: py_slice.simps)
  from sliced_abstract [OF sl] bib ab sl show ?thesis by blast
qed

lemma search_semantic_member:
  assumes "search_semantic_scholar_async w q n = Some rs" and "r \<in> set rs"
  shows "\<exists>body papers paper. semantic_api w q n = Inr body
           \<and> response_items ''data'' body = Some papers \<and> paper \<in> set papers
           \<and> semantic_record w paper = Some r"
  using assms
  by (auto simp add: search_semantic_scholar_async_def search_semantic_scholar_try_def
      response_items_def split: sum.splits option.splits dest!: loop_append_member_item)

lemma search_google_scholar_member:
  assumes "search_google_scholar w q n = Some rs" and "r \<in> set rs"
  shows "\<exists>g pub. search_pubs w q = Inr g \<and> pub \<in> set (yielded g)
           \<and> scholar_record w pub = Some r"
proof (cases "search_pubs w q")
  case (Inl f)
  with assms show ?thesis
    by (simp add: search_google_scholar_def search_google_scholar_try_def)
next
  case (Inr g)
  with assms have "r \<in> set (scholar_kept w (take (nat n) (yielded g)))"
    by (simp add: search_google_scholar_kept)
  then obtain pub where "pub \<in> set (take (nat n) (yielded g))" "scholar_record w pub = Some r"
    by (auto dest: scholar_kept_member)
  with Inr show ?thesis by (auto dest: in_set_takeD)
qed

text \<open>
  Claim C9, as amended. In every record of the PubMed, arXiv and OpenAlex adapters, for
  every upstream response, the abstract is a text of at most 500 characters. In a record
  of the Semantic Scholar or Google Scholar adapter the abstract is the slice \<^verbatim>\<open>[:500]\<close> of
  what the item of the response gives as its abstract (\<^verbatim>\<open>N/A\<close> when it gives none, for
  Semantic Scholar also when it is empty or null): a text of at most 500 characters, or,
  when the upstream abstract is a list, a list of at most 500 items.
\<close>

theorem abstracts_are_slices_of_at_most_500:
  "(search \<in> set text_adapters \<and> search w q n = Some rs \<and> r \<in> set rs
      \<longrightarrow> abstract_is_text_within_500 r)
   \<and> (search_semantic_scholar_async w q n = Some rs1 \<and> r1 \<in> set rs1 \<longrightarrow>
        (\<exists>body papers paper ab.
           semantic_api w q n = Inr body \<and> response_items ''data'' body = Some papers
           \<and> paper \<in> set papers \<and> semantic_record w paper = Some r1
           \<and> py_get paper ''abstract'' (PStr ''N/A'') = Some ab
           \<and> py_slice 500 (if truthy ab then ab else PStr ''N/A'') = Some (abstract r1)
           \<and> (case abstract r1 of PStr s \<Rightarrow> length s \<le> 500
               | PList xs \<Rightarrow> length xs \<le> 500 \<and> is_list ab | _ \<Rightarrow> False)))
   \<and> (search_google_scholar w q n = Some rs2 \<and> r2 \<in> set rs2 \<longrightarrow>
        (\<exists>g pub bib ab.
           search_pubs w q = Inr g \<and> pub \<in> set (yielded g) \<and> scholar_record w pub = Some r2
           \<and> py_get pub ''bib'' (PDict []) = Some bib
           \<and> py_get bib ''abstract'' (PStr ''N/A'') = Some ab
           \<and> py_slice 500 ab = Some (abstract r2)
           \<and> (case abstract r2 of PStr s \<Rightarrow> length s \<le> 500
               | PList xs \<Rightarrow> length xs \<le> 500 \<and> is_list ab | _ \<Rightarrow> False)))"
proof (intro conjI impI)
  assume "search \<in> set text_adapters \<and> search w q n = Some rs \<and> r \<in> set rs"
  then show "abstract_is_text_within_500 r" using text_adapters_abstract by blast
next
  assume "search_semantic_scholar_async w q n = Some rs1 \<and> r1 \<in> set rs1"
  then obtain body papers paper where a: "semantic_api w q n = Inr body"
    "response_items ''data'' body = Some papers" "paper \<in> set papers"
    "semantic_record w paper = Some r1"
    using search_semantic_member by blast
  from semantic_record_abstract_slice [OF a(4)] a
  show "\<exists>body papers paper ab.
           semantic_api w q n = Inr body \<and> response_items ''data'' body = Some papers
           \<and> paper \<in> set papers \<and> semantic_record w paper = Some r1
           \<and> py_get paper ''abstract'' (PStr ''N/A'') = Some ab
           \<and> py_slice 500 (if truthy ab then ab else PStr ''N/A'') = Some (abstract r1)
           \<and> (case abstract r1 of PStr s \<Rightarrow> length s \<le> 500
               | PList xs \<Rightarrow> length xs \<le> 500 \<and> is_list ab | _ \<Rightarrow> False)"
    by blast
next
  assume "search_google_scholar w q n = Some rs2 \<and> r2 \<in> set rs2"
  then obtain g pub where a: "search_pubs w q = Inr g" "pub \<in> set (yielded g)"
    "scholar_record w pub = Some r2"
    using search_google_scholar_member by blast
  from scholar_record_abstract_slice [OF a(3)] a
  show "\<exists>g pub bib ab.
           search_pubs w q = Inr g \<and> pub \<in> set (yielded g) \<and> scholar_record w pub = Some r2
           \<and> py_get pub ''bib'' (PDict []) = Some bib
           \<and> py_get bib ''abstract'' (PStr ''N/A'') = Some ab
           \<and> py_slice 500 ab = Some (abstract r2)
           \<and> (case abstract r2 of PStr s \<Rightarrow> length s \<le> 500
               | PList xs \<Rightarrow> length xs \<le> 500 \<and> is_list ab | _ \<Rightarrow> False)"
    by blast
qed

text \<open>An arXiv summary of 600 characters is cut to 500.\<close>

lemma long_abstract: "map abstract (the (search_arxiv long_world ''graph neural networks'' 10))
       = [PStr (replicate 500 (CHR ''x''))]"
  by code_simp

text \<open>
  Claim C9, as stated, fails: when Semantic Scholar delivers a list as the abstract, the
  slice keeps the list, and the text of 1000 characters in it is not shortened.
\<close>

theorem list_abstract_is_not_cut_to_500_characters:
  "map abstract (the (search_semantic_scholar_async list_world ''graph neural networks'' 10))
     = [PList [PStr (replicate 1000 (CHR ''x''))]]
   \<and> length (replicate 1000 (CHR ''x'')) = 1000
   \<and> \<not> abstract_is_text_within_500
         (hd (the (search_semantic_scholar_async list_world ''graph neural networks'' 10)))"
  by code_simp


text \<open>
  The record of the long arXiv entry, and the record of the sample paper of Semantic
  Scholar, whose abstract is null.
\<close>

theorem abstracts_are_slices_of_at_most_500_witness:
  "search_arxiv \<in> set text_adapters
   \<and> map abstract (the (search_arxiv long_world ''graph neural networks'' 10))
       = [PStr (replicate 500 (CHR ''x''))]
   \<and> abstract_is_text_within_500 (hd (the (search_arxiv long_world ''graph neural networks'' 10)))
   \<and> map abstract (the (search_semantic_scholar_async sample_world ''graph neural networks'' 10))
       = [PStr ''N/A'']"
proof -
  let ?rs = "the (search_arxiv long_world ''graph neural networks'' 10)"
  let ?rs1 = "the (search_semantic_scholar_async sample_world ''graph neural networks'' 10)"
  have 1: "search_arxiv \<in> set text_adapters" by (simp add: text_adapters_def)
  have 2: "search_arxiv long_world ''graph neural networks'' 10 = Some ?rs"
    by (simp add: search_arxiv_def)
  have "?rs \<noteq> []" using long_abstract by auto
  then have 3: "hd ?rs \<in> set ?rs" by simp
  have 4: "search_semantic_scholar_async sample_world ''graph neural networks'' 10 = Some ?rs1"
    by (simp add: search_semantic_scholar_async_def)
  have 5: "map abstract ?rs1 = [PStr ''N/A'']" by code_simp
  then have "?rs1 \<noteq> []" by auto
  then have 6: "hd ?rs1 \<in> set ?rs1" by simp
  from abstracts_are_slices_of_at_most_500
         [where search = search_arxiv and w = long_world and q = "''graph neural networks''"
            and n = 10 and rs = ?rs and r = "hd ?rs"]
       abstracts_are_slices_of_at_most_500
         [where w = sample_world and q = "''graph neural networks''"
            and n = 10 and ?rs1.0 = ?rs1 and ?r1.0 = "hd ?rs1"]
       1 2 3 4 5 6 long_abstract
  show ?thesis by simp
qed

lemma openalex_record_authors:
  assumes "openalex_record w work = Some r"
  shows "\<exists>names strs. openalex_authors work = Some names \<and> the_strs (take 5 names) = Some strs
           \<and> authors r = join '', '' strs"
  using assms by (auto simp add: openalex_record_def bind_eq_Some_conv py_join_def)

lemma semantic_record_authors:
  assumes "semantic_record w paper = Some r"
  shows "\<exists>names strs. semantic_authors paper = Some names \<and> the_strs names = Some strs
           \<and> authors r = join '', '' strs"
  using assms
  by (auto simp add: semantic_record_def bind_eq_Some_conv py_join_def simp del: py_slice.simps)

lemma arxiv_record_authors:
  assumes "arxiv_record entry = Some r"
  shows "\<exists>names strs. arxiv_authors (et_findall (atom ''author'') entry) = Some names
           \<and> the_strs names = Some strs \<and> authors r = join '', '' strs"
  using assms
  by (auto simp add: arxiv_record_def Let_def bind_eq_Some_conv py_join_def split: if_splits)

lemma pubmed_record_authors:
  assumes "pubmed_record article = Some r"
  shows "authors r = join '', '' (pubmed_authors (findall_desc ''Author'' article))"
  using assms
  by (auto simp add: pubmed_record_def Let_def bind_eq_Some_conv split: if_splits)

lemma py_get_two_defaults:
  assumes "py_get d k a = Some v" and "py_get d k b = Some v'"
  shows "v = v' \<or> (v = a \<and> v' = b)"
  using assms by (cases d) (auto split: option.splits)

lemma scholar_record_authors:
  assumes "scholar_record w pub = Some r"
  shows "\<exists>bib. py_get pub ''bib'' (PDict []) = Some bib
           \<and> (case py_get bib ''author'' PNone of
                 Some (PList names) \<Rightarrow>
                   \<exists>strs. the_strs names = Some strs \<and> authors r = join '', '' strs
               | _ \<Rightarrow> \<exists>s. py_get bib ''author'' (PStr ''N/A'') = Some s \<and> authors r = py_str w s)"
proof -
  from assms obtain bib a auth where
    bib: "py_get pub ''bib'' (PDict []) = Some bib" and
    a: "py_get bib ''author'' PNone = Some a" and
    auth: "(if is_list a
            then do { l \<leftarrow> py_get bib ''author'' (PList []); py_join_val '', '' l }
            else do { s \<leftarrow> py_get bib ''author'' (PStr ''N/A''); Some (py_str w s) }) = Some auth" and
    r: "authors r = auth"
    by (auto simp add: scholar_record_def bind_eq_Some_conv)
  show ?thesis
  proof (cases "is_list a")
    case True
    then obtain names where names: "a = PList names" by (cases a) auto
    from True auth obtain l where l: "py_get bib ''author'' (PList []) = Some l"
      and j: "py_join_val '', '' l = Some auth"
      by (auto simp add: bind_eq_Some_conv)
    from py_get_two_defaults [OF a l] names have "l = PList names" by auto
    with j obtain strs where "the_strs names = Some strs" and "auth = join '', '' strs"
      by (auto simp add: py_join_val_def py_join_def)
    with bib a names r show ?thesis by simp
  next
    case False
    with auth obtain s where "py_get bib ''author'' (PStr ''N/A'') = Some s" and "auth = py_str w s"
      by (auto simp add: bind_eq_Some_conv)
    with bib a r False show ?thesis by (cases a) auto
  qed
qed

lemma the_strs_length: "the_strs vs = Some strs \<Longrightarrow> length strs = length vs"
  by (induction vs arbitrary: strs rule: the_strs.induct) auto

text \<open>
  Claim C10. The \<^verbatim>\<open>authors\<close> field of an OpenAlex record is the comma-join of the first five
  display names of the authorships, or of all when there are fewer. The other four join
  all the authors they parsed (Google Scholar prints an author field that is not a list as
  it is).
\<close>

theorem openalex_authors_are_the_first_five:
  "(openalex_record w work = Some r \<longrightarrow>
      (\<exists>names strs. openalex_authors work = Some names \<and> the_strs (take 5 names) = Some strs
         \<and> authors r = join '', '' strs \<and> length strs = min 5 (length names)))
   \<and> (semantic_record w paper = Some r1 \<longrightarrow>
      (\<exists>names strs. semantic_authors paper = Some names \<and> the_strs names = Some strs
         \<and> authors r1 = join '', '' strs))
   \<and> (arxiv_record entry = Some r2 \<longrightarrow>
      (\<exists>names strs. arxiv_authors (et_findall (atom ''author'') entry) = Some names
         \<and> the_strs names = Some strs \<and> authors r2 = join '', '' strs))
   \<and> (pubmed_record article = Some r3 \<longrightarrow>
      authors r3 = join '', '' (pubmed_authors (findall_desc ''Author'' article)))
   \<and> (scholar_record w pub = Some r4 \<longrightarrow>
      (\<exists>bib. py_get pub ''bib'' (PDict []) = Some bib
         \<and> (case py_get bib ''author'' PNone of
               Some (PList names) \<Rightarrow>
                 \<exists>strs. the_strs names = Some strs \<and> authors r4 = join '', '' strs
             | _ \<Rightarrow> \<exists>s. py_get bib ''author'' (PStr ''N/A'') = Some s
                        \<and> authors r4 = py_str w s)))"
proof -
  have "openalex_record w work = Some r \<longrightarrow>
      (\<exists>names strs. openalex_authors work = Some names \<and> the_strs (take 5 names) = Some strs
         \<and> authors r = join '', '' strs \<and> length strs = min 5 (length names))"
    using openalex_record_authors [of w work r] the_strs_length by fastforce
  then show ?thesis
    using semantic_record_authors [of w paper r1] arxiv_record_authors [of entry r2]
      pubmed_record_authors [of article r3] scholar_record_authors [of w pub r4]
    by blast
qed

text \<open>The sample work has six authorships; the record names the first five.\<close>

theorem openalex_authors_are_the_first_five_witness:
  "openalex_authors sample_work = Some (map PStr [''Ada'', ''Bob'', ''Cy'', ''Di'', ''Ed'', ''Flo''])
   \<and> authors (the (openalex_record sample_world sample_work)) = ''Ada, Bob, Cy, Di, Ed''
   \<and> authors (the (semantic_record sample_world sample_paper)) = ''Thomas Kipf, Max Welling''"
proof -
  have 1: "openalex_authors sample_work = Some (map PStr [''Ada'', ''Bob'', ''Cy'', ''Di'', ''Ed'', ''Flo''])"
    by code_simp
  have 2: "openalex_record sample_world sample_work = Some (the (openalex_record sample_world sample_work))"
    by code_simp
  have 3: "semantic_record sample_world sample_paper = Some (the (semantic_record sample_world sample_paper))"
    by code_simp
  have 4: "semantic_authors sample_paper = Some [PStr ''Thomas Kipf'', PStr ''Max Welling'']"
    by code_simp
  from openalex_authors_are_the_first_five
         [of sample_world sample_work "the (openalex_record sample_world sample_work)"
             sample_paper "the (semantic_record sample_world sample_paper)"]
       1 2 3 4
  show ?thesis by auto
qed

text \<open>
  Claim C4. For the request with query \<^verbatim>\<open>graph neural networks\<close>, sources \<^verbatim>\<open>["arxiv"]\<close> and
  \<^verbatim>\<open>num_results = 5\<close> the envelope should hold at most 5 arXiv records. The endpoint does not
  pass \<^verbatim>\<open>num_results\<close> on, the adapter asks arXiv for 10 entries, and when arXiv sends 10
  the envelope holds 10 records.
\<close>

theorem num_results_is_not_passed_on:
  "map (\<lambda>s. (fst s, length (snd s)))
     (sources (data (fst (search_endpoint sample_world
        \<lparr>req_query = ''graph neural networks'', req_sources = Some [''arxiv''], num_results = 5\<rparr>))))
   = [(''arxiv'', 10)]"
proof -
  have miss: "cache_lookup sample_world k = None" for k
    by (simp add: cache_lookup_no_backend sample_world_def)
  have "map (\<lambda>s. (fst s, length (snd s)))
     (sources (fst (assemble (the_adapters sample_world) sample_world
        ''graph neural networks'' [''arxiv''])))
   = [(''arxiv'', 10)]"
    by code_simp
  then show ?thesis
    by (simp add: search_endpoint_def search_all_sources_def search_all_sources_with_cases
        miss selected_sources_def)
qed

text \<open>
  What does hold of the endpoint and of arXiv records: the response does not depend on
  \<^verbatim>\<open>num_results\<close>, there is at most one record per entry of the feed, and each record has
  the three constant fields.
\<close>

lemma search_endpoint_ignores_num_results:
  "search_endpoint w (request\<lparr>num_results := n\<rparr>) = search_endpoint w request"
  by (simp add: search_endpoint_def)

lemma arxiv_record_constants:
  "arxiv_record entry = Some r \<Longrightarrow>
   source r = ''arXiv'' \<and> venue r = PStr ''arXiv Preprint'' \<and> citations r = PStr ''N/A''"
  by (auto simp add: arxiv_record_def Let_def bind_eq_Some_conv split: if_splits)

lemma search_arxiv_constants:
  assumes "search_arxiv w q n = Some rs" and "r \<in> set rs"
  shows "source r = ''arXiv'' \<and> venue r = PStr ''arXiv Preprint'' \<and> citations r = PStr ''N/A''"
  using assms
  by (auto simp add: search_arxiv_def search_arxiv_try_def
      split: sum.splits dest!: loop_append_member arxiv_record_constants)

lemma search_arxiv_length:
  assumes "arxiv_api w (''all:'' @ q) n = Inr root"
  shows "length (the (search_arxiv w q n)) \<le> length (et_findall (atom ''entry'') root)"
  using assms length_takeWhile_le [of "\<lambda>e. arxiv_record e \<noteq> None" "et_findall (atom ''entry'') root"]
  by (simp add: search_arxiv_kept kept_def)

section \<open>OpenAlex: the abstract from the inverted index\<close>

lemma those_map_Some: "those (map (\<lambda>x. Some (f x)) xs) = Some (map f xs)"
  by (induction xs) auto

lemma maximum_Max: "xs \<noteq> [] \<Longrightarrow> maximum xs = Some (Max (set xs))"
proof (cases xs)
  case (Cons a list)
  then show ?thesis using Max.set_eq_fold [of a list] by simp
qed simp

lemma fold_upd_other: "i \<notin> set ps \<Longrightarrow> fold (\<lambda>p ws. ws[p := w]) ps ws ! i = ws ! i"
  by (induction ps arbitrary: ws) simp_all

lemma max_position_nats:
  assumes "ps \<noteq> []"
  shows "max_position (PList (map (\<lambda>p. PInt (int p)) ps)) = Some (int (Max (set ps)))"
proof -
  have "those (map as_int (map (\<lambda>p. PInt (int p)) ps)) = Some (map int ps)"
    using those_map_Some [of int ps] by (simp add: comp_def)
  moreover have "Max (set (map int ps)) = int (Max (set ps))"
    using assms mono_Max_commute [of int "set ps"] by (simp add: mono_def)
  ultimately show ?thesis
    using assms by (simp add: max_position_def maximum_Max)
qed

lemma maxima_of_index:
  assumes "\<forall>kv\<in>set ix. snd kv \<noteq> []"
  shows "those (map (\<lambda>kv. max_position (snd kv))
           (map (\<lambda>kv. (fst kv, PList (map (\<lambda>p. PInt (int p)) (snd kv)))) ix))
         = Some (map (\<lambda>kv. int (Max (set (snd kv)))) ix)"
  using assms by (induction ix) (simp_all add: max_position_nats)

lemma Max_positions:
  assumes "ix \<noteq> []" and "\<forall>kv\<in>set ix. snd kv \<noteq> []"
  shows "Max ((\<lambda>kv. int (Max (set (snd kv)))) ` set ix) = int (Max (positions_of ix))"
proof -
  let ?U = "positions_of ix"
  have fin: "finite ?U" by (simp add: positions_of_def)
  from assms obtain kv0 where kv0: "kv0 \<in> set ix" "snd kv0 \<noteq> []" by (cases ix) auto
  then have ne: "?U \<noteq> {}" by (auto simp add: positions_of_def)
  have "Max ?U \<in> ?U" using fin ne by (rule Max_in)
  then obtain kv where kv: "kv \<in> set ix" "Max ?U \<in> set (snd kv)"
    by (auto simp add: positions_of_def)
  have le: "Max (set (snd kv')) \<le> Max ?U" if "kv' \<in> set ix" for kv'
  proof -
    from that assms(2) have "snd kv' \<noteq> []" by simp
    then have "Max (set (snd kv')) \<in> set (snd kv')" by simp
    with that have "Max (set (snd kv')) \<in> ?U" by (auto simp add: positions_of_def)
    with fin show ?thesis by simp
  qed
  have "Max (set (snd kv)) = Max ?U"
    using kv le [OF kv(1)] by (simp add: antisym)
  with kv(1) have mem: "int (Max ?U) \<in> (\<lambda>kv. int (Max (set (snd kv)))) ` set ix"
    by (metis imageI)
  show ?thesis
  proof (rule Max_eqI)
    show "finite ((\<lambda>kv. int (Max (set (snd kv)))) ` set ix)" by simp
    show "int (Max ?U) \<in> (\<lambda>kv. int (Max (set (snd kv)))) ` set ix" by (rule mem)
    fix y assume "y \<in> (\<lambda>kv. int (Max (set (snd kv)))) ` set ix"
    then obtain kv' where "kv' \<in> set ix" "y = int (Max (set (snd kv')))" by blast
    with le [of kv'] show "y \<le> int (Max ?U)" by simp
  qed
qed

lemma put_word_length [simp]: "length (put_word kv ws) = length ws"
proof -
  have "length (fold (\<lambda>p ws. ws[p := w]) ps ws) = length ws" for w ps
    by (induction ps arbitrary: ws) simp_all
  then show ?thesis by (simp add: put_word_def)
qed

lemma fold_put_length [simp]: "length (fold put_word ix ws) = length ws"
  by (induction ix arbitrary: ws) simp_all

lemma place_word_nats:
  assumes "\<forall>p\<in>set ps. p < length ws"
  shows "place_word w (map (\<lambda>p. PInt (int p)) ps) ws = Some (put_word (w, ps) ws)"
  using assms
proof (induction ps arbitrary: ws)
  case Nil
  then show ?case by (simp add: put_word_def)
next
  case (Cons p ps)
  then have "py_setitem ws (int p) w = Some (ws[p := w])"
    by (simp add: py_setitem_def)
  moreover have "place_word w (map (\<lambda>p. PInt (int p)) ps) (ws[p := w]) = Some (put_word (w, ps) (ws[p := w]))"
    using Cons by simp
  ultimately show ?case by (simp add: put_word_def)
qed

lemma place_words_nats:
  assumes "\<forall>kv\<in>set ix. \<forall>p\<in>set (snd kv). p < length ws"
  shows "place_words (map (\<lambda>kv. (fst kv, PList (map (\<lambda>p. PInt (int p)) (snd kv)))) ix) ws
         = Some (fold put_word ix ws)"
  using assms
proof (induction ix arbitrary: ws)
  case Nil
  then show ?case by simp
next
  case (Cons kv ix)
  then have "place_word (fst kv) (map (\<lambda>p. PInt (int p)) (snd kv)) ws = Some (put_word kv ws)"
    using place_word_nats [of "snd kv" ws "fst kv"] by simp
  with Cons show ?case by simp
qed

lemma put_word_other: "i \<notin> set (snd kv) \<Longrightarrow> put_word kv ws ! i = ws ! i"
  by (simp add: put_word_def fold_upd_other)

lemma fold_upd_at:
  "i \<in> set ps \<Longrightarrow> i < length ws \<Longrightarrow> fold (\<lambda>p ws. ws[p := w]) ps ws ! i = w"
proof (induction ps arbitrary: ws)
  case Nil
  then show ?case by simp
next
  case (Cons p ps)
  show ?case
  proof (cases "i \<in> set ps")
    case True
    with Cons show ?thesis by simp
  next
    case False
    with Cons.prems have "i = p" by simp
    with False Cons.prems show ?thesis by (simp add: fold_upd_other)
  qed
qed

lemma put_word_at: "i \<in> set (snd kv) \<Longrightarrow> i < length ws \<Longrightarrow> put_word kv ws ! i = fst kv"
  by (simp add: put_word_def fold_upd_at)

lemma fold_put_other: "i \<notin> positions_of ix \<Longrightarrow> fold put_word ix ws ! i = ws ! i"
  by (induction ix arbitrary: ws) (simp_all add: positions_of_def put_word_other)

lemma fold_put_at:
  assumes "\<exists>kv\<in>set ix. i \<in> set (snd kv)" and "i < length ws"
    and "\<forall>kv\<in>set ix. i \<in> set (snd kv) \<longrightarrow> fst kv = w"
  shows "fold put_word ix ws ! i = w"
  using assms
proof (induction ix arbitrary: ws)
  case Nil
  then show ?case by simp
next
  case (Cons kv0 ix)
  show ?case
  proof (cases "\<exists>kv\<in>set ix. i \<in> set (snd kv)")
    case True
    have "fold put_word ix (put_word kv0 ws) ! i = w"
      by (rule Cons.IH [OF True]) (use Cons.prems in simp_all)
    then show ?thesis by simp
  next
    case False
    then have "i \<notin> positions_of ix" by (auto simp add: positions_of_def)
    then have "fold put_word ix (put_word kv0 ws) ! i = put_word kv0 ws ! i"
      by (rule fold_put_other)
    moreover from False Cons.prems have "i \<in> set (snd kv0)" and "fst kv0 = w" by auto
    ultimately show ?thesis using Cons.prems by (simp add: put_word_at)
  qed
qed

lemma index_words_nats:
  assumes "is_inverted_index ix"
  shows "index_words (index_val ix) =
           Some (fold put_word ix (replicate (Suc (Max (positions_of ix))) []))"
proof -
  from assms have ne: "ix \<noteq> []" and pos: "\<forall>kv\<in>set ix. snd kv \<noteq> []"
    by (simp_all add: is_inverted_index_def)
  let ?n = "Suc (Max (positions_of ix))"
  have fin: "finite (positions_of ix)" by (simp add: positions_of_def)
  have bound: "\<forall>kv\<in>set ix. \<forall>p\<in>set (snd kv). p < length (replicate ?n ([]::string))"
  proof (intro ballI)
    fix kv p assume "kv \<in> set ix" "p \<in> set (snd kv)"
    then have "p \<in> positions_of ix" by (auto simp add: positions_of_def)
    with fin have "p \<le> Max (positions_of ix)" by simp
    then show "p < length (replicate ?n ([]::string))" by simp
  qed
  have m: "maximum (map (\<lambda>kv. int (Max (set (snd kv)))) ix) = Some (int (Max (positions_of ix)))"
    using ne pos by (simp add: maximum_Max Max_positions)
  have n: "nat (int (Max (positions_of ix)) + 1) = ?n" by simp
  show ?thesis
    unfolding index_words_def index_val_def
    using maxima_of_index [OF pos] m place_words_nats [OF bound]
    by (simp add: n del: replicate_Suc)
qed

lemma openalex_record_work_abstract:
  assumes "openalex_record w work = Some r"
  shows "\<exists>idx. py_get work ''abstract_inverted_index'' (PDict []) = Some idx
           \<and> work_abstract idx = Some (abstract r)"
  using assms by (auto simp add: openalex_record_def bind_eq_Some_conv)

lemma kept_nth:
  assumes "i < length (kept f xs)"
  shows "f (xs ! i) = Some (kept f xs ! i)"
proof -
  let ?ys = "takeWhile (\<lambda>x. f x \<noteq> None) xs"
  from assms have i: "i < length ?ys" by (simp add: kept_def)
  then have "?ys ! i = xs ! i" by (rule takeWhile_nth)
  moreover from i have "?ys ! i \<in> set ?ys" by simp
  then have "f (?ys ! i) \<noteq> None" by (auto dest: set_takeWhileD)
  ultimately show ?thesis using i by (auto simp add: kept_def)
qed

lemma search_openalex_nth:
  assumes "openalex_api w q n = Inr body" and "response_items ''results'' body = Some works"
    and "search_openalex_async w q n = Some rs" and "i < length rs"
  shows "openalex_record w (works ! i) = Some (rs ! i)"
proof -
  from assms(1,2,3) have "rs = kept (openalex_record w) works"
    using search_openalex_kept [of w q n body] by simp
  with assms(4) show ?thesis by (simp add: kept_nth)
qed

lemma bare_work_record:
  assumes "work_abstract idx = Some ab"
  shows "openalex_record w (PDict [(''abstract_inverted_index'', idx)]) =
           Some \<lparr>source = ''OpenAlex'', title = PStr ''N/A'', authors = [],
                 year = PStr (py_str w (PStr ''N/A'')), abstract = ab, url = PStr ''N/A'',
                 citations = PInt 0, venue = PStr ''N/A''\<rparr>"
  using assms by (simp add: openalex_record_def openalex_authors_def py_join_def)

text \<open>
  Claim C6. For every inverted abstract index the OpenAlex adapter builds the list of
  words by writing each word at every 0-based position it occupies; the list is as long
  as the greatest position requires, the positions that no word occupies hold the empty
  string, and the abstract of the record the adapter returns for a work with that index
  is the list joined by blanks, cut at 500 characters. The index
  \<^verbatim>\<open>{"deep": [0, 2], "learning": [1]}\<close> gives \<^verbatim>\<open>deep learning deep\<close>.
\<close>

theorem inverted_index_is_reconstructed:
  assumes "is_inverted_index ix"
  shows "(\<exists>ws. index_words (index_val ix) = Some ws
            \<and> length ws = Suc (Max (positions_of ix))
            \<and> (\<forall>kv\<in>set ix. \<forall>p\<in>set (snd kv). ws ! p = fst kv)
            \<and> (\<forall>i<length ws. i \<notin> positions_of ix \<longrightarrow> ws ! i = [])
            \<and> work_abstract (index_val ix) = Some (PStr (take 500 (join '' '' ws)))
            \<and> (\<forall>w work r.
                  py_get work ''abstract_inverted_index'' (PDict []) = Some (index_val ix)
                  \<and> openalex_record w work = Some r
                  \<longrightarrow> abstract r = PStr (take 500 (join '' '' ws)))
            \<and> (\<forall>w. abstract (the (openalex_record w
                       (PDict [(''abstract_inverted_index'', index_val ix)])))
                     = PStr (take 500 (join '' '' ws))
                   \<and> openalex_record w (PDict [(''abstract_inverted_index'', index_val ix)]) \<noteq> None)
            \<and> (\<forall>w q n body works rs i.
                  openalex_api w q n = Inr body \<and> response_items ''results'' body = Some works
                  \<and> search_openalex_async w q n = Some rs \<and> i < length rs
                  \<and> py_get (works ! i) ''abstract_inverted_index'' (PDict []) = Some (index_val ix)
                  \<longrightarrow> abstract (rs ! i) = PStr (take 500 (join '' '' ws))))
         \<and> work_abstract (index_val [(''deep'', [0, 2]), (''learning'', [1])])
             = Some (PStr ''deep learning deep'')"
proof -
  let ?ws = "fold put_word ix (replicate (Suc (Max (positions_of ix))) [])"
  let ?ab = "PStr (take 500 (join '' '' ?ws))"
  have fin: "finite (positions_of ix)" by (simp add: positions_of_def)
  have w: "index_words (index_val ix) = Some ?ws" using assms by (rule index_words_nats)
  have len: "length ?ws = Suc (Max (positions_of ix))" by simp
  have placed: "\<forall>kv\<in>set ix. \<forall>p\<in>set (snd kv). ?ws ! p = fst kv"
  proof (intro ballI)
    fix kv p assume kv: "kv \<in> set ix" and p: "p \<in> set (snd kv)"
    then have "p \<in> positions_of ix" by (auto simp add: positions_of_def)
    with fin have "p \<le> Max (positions_of ix)" by simp
    then have lt: "p < length (replicate (Suc (Max (positions_of ix))) ([]::string))" by simp
    have "\<forall>kv'\<in>set ix. p \<in> set (snd kv') \<longrightarrow> fst kv' = fst kv"
    proof (intro ballI impI)
      fix kv' assume "kv' \<in> set ix" "p \<in> set (snd kv')"
      with kv p have "set (snd kv') \<inter> set (snd kv) \<noteq> {}" by blast
      with assms \<open>kv' \<in> set ix\<close> kv show "fst kv' = fst kv"
        unfolding is_inverted_index_def by blast
    qed
    moreover have "\<exists>kv\<in>set ix. p \<in> set (snd kv)" using kv p by blast
    ultimately show "?ws ! p = fst kv" using lt by (intro fold_put_at)
  qed
  have gaps: "\<forall>i<length ?ws. i \<notin> positions_of ix \<longrightarrow> ?ws ! i = []"
  proof (intro allI impI)
    fix i assume "i < length ?ws" and "i \<notin> positions_of ix"
    then have "?ws ! i = replicate (Suc (Max (positions_of ix))) [] ! i" and "i < Suc (Max (positions_of ix))"
      by (simp_all add: fold_put_other del: replicate_Suc)
    then show "?ws ! i = []" by (simp del: replicate_Suc)
  qed
  have "truthy (index_val ix)" using assms by (simp add: is_inverted_index_def index_val_def)
  then have ab: "work_abstract (index_val ix) = Some ?ab"
    using w by (simp add: work_abstract_def)
  have rec: "\<forall>w work r.
                  py_get work ''abstract_inverted_index'' (PDict []) = Some (index_val ix)
                  \<and> openalex_record w work = Some r
                  \<longrightarrow> abstract r = ?ab"
  proof (intro allI impI)
    fix w work r
    assume a: "py_get work ''abstract_inverted_index'' (PDict []) = Some (index_val ix)
                  \<and> openalex_record w work = Some r"
    then obtain idx where "py_get work ''abstract_inverted_index'' (PDict []) = Some idx"
      and "work_abstract idx = Some (abstract r)"
      using openalex_record_work_abstract by blast
    with a ab show "abstract r = ?ab" by simp
  qed
  have bare: "\<forall>w. abstract (the (openalex_record w
                       (PDict [(''abstract_inverted_index'', index_val ix)]))) = ?ab
                   \<and> openalex_record w (PDict [(''abstract_inverted_index'', index_val ix)]) \<noteq> None"
    using bare_work_record [OF ab] by simp
  have adapter: "\<forall>w q n body works rs i.
                  openalex_api w q n = Inr body \<and> response_items ''results'' body = Some works
                  \<and> search_openalex_async w q n = Some rs \<and> i < length rs
                  \<and> py_get (works ! i) ''abstract_inverted_index'' (PDict []) = Some (index_val ix)
                  \<longrightarrow> abstract (rs ! i) = ?ab"
  proof (intro allI impI)
    fix w q n body works rs i
    assume a: "openalex_api w q n = Inr body \<and> response_items ''results'' body = Some works
                  \<and> search_openalex_async w q n = Some rs \<and> i < length rs
                  \<and> py_get (works ! i) ''abstract_inverted_index'' (PDict []) = Some (index_val ix)"
    then have "openalex_record w (works ! i) = Some (rs ! i)"
      using search_openalex_nth [of w q n body works rs i] by blast
    with a rec show "abstract (rs ! i) = ?ab" by blast
  qed
  have ex: "work_abstract (index_val [(''deep'', [0, 2]), (''learning'', [1])])
             = Some (PStr ''deep learning deep'')"
    by code_simp
  have "\<exists>ws. index_words (index_val ix) = Some ws
            \<and> length ws = Suc (Max (positions_of ix))
            \<and> (\<forall>kv\<in>set ix. \<forall>p\<in>set (snd kv). ws ! p = fst kv)
            \<and> (\<forall>i<length ws. i \<notin> positions_of ix \<longrightarrow> ws ! i = [])
            \<and> work_abstract (index_val ix) = Some (PStr (take 500 (join '' '' ws)))
            \<and> (\<forall>w work r.
                  py_get work ''abstract_inverted_index'' (PDict []) = Some (index_val ix)
                  \<and> openalex_record w work = Some r
                  \<longrightarrow> abstract r = PStr (take 500 (join '' '' ws)))
            \<and> (\<forall>w. abstract (the (openalex_record w
                       (PDict [(''abstract_inverted_index'', index_val ix)])))
                     = PStr (take 500 (join '' '' ws))
                   \<and> openalex_record w (PDict [(''abstract_inverted_index'', index_val ix)]) \<noteq> None)
            \<and> (\<forall>w q n body works rs i.
                  openalex_api w q n = Inr body \<and> response_items ''results'' body = Some works
                  \<and> search_openalex_async w q n = Some rs \<and> i < length rs
                  \<and> py_get (works ! i) ''abstract_inverted_index'' (PDict []) = Some (index_val ix)
                  \<longrightarrow> abstract (rs ! i) = PStr (take 500 (join '' '' ws)))"
    by (intro exI [of _ ?ws] conjI w len placed gaps ab rec bare adapter)
  from this ex show ?thesis by (rule conjI)
qed

text \<open>
  The record the adapter returns for the sample work, and the record of a work whose index
  \<^verbatim>\<open>{"graph": [0], "nets": [3]}\<close> has nothing at the positions 1 and 2.
\<close>

theorem inverted_index_is_reconstructed_witness:
  "index_val [(''deep'', [0, 2]), (''learning'', [1])] = sample_index
   \<and> index_words sample_index = Some [''deep'', ''learning'', ''deep'']
   \<and> length (the (search_openalex_async sample_world ''deep learning'' 10)) = 1
   \<and> abstract (the (search_openalex_async sample_world ''deep learning'' 10) ! 0)
       = PStr ''deep learning deep''
   \<and> index_words (index_val [(''graph'', [0]), (''nets'', [3])]) = Some [''graph'', [], [], ''nets'']
   \<and> abstract (the (openalex_record sample_world
        (PDict [(''abstract_inverted_index'', index_val [(''graph'', [0]), (''nets'', [3])])])))
       = PStr ''graph   nets''"
proof -
  let ?ix = "[(''deep'', [0, 2]), (''learning'', [1])]"
  let ?rs = "the (search_openalex_async sample_world ''deep learning'' 10)"
  let ?body = "PDict [(''results'', PList [sample_work])]"
  have 1: "is_inverted_index ?ix" by (simp add: is_inverted_index_def)
  have 2: "is_inverted_index [(''graph'', [0]), (''nets'', [3])]"
    by (simp add: is_inverted_index_def)
  have 3: "index_val ?ix = sample_index" by (simp add: index_val_def sample_index_def)
  have 4: "index_words sample_index = Some [''deep'', ''learning'', ''deep'']" by code_simp
  have 5: "index_words (index_val [(''graph'', [0]), (''nets'', [3])]) = Some [''graph'', [], [], ''nets'']"
    by code_simp
  have 6: "join '' '' [''graph'', [], [], ''nets''] = ''graph   nets''" by simp
  have 7: "openalex_api sample_world ''deep learning'' 10 = Inr ?body"
    by (simp add: sample_world_def)
  have 8: "response_items ''results'' ?body = Some [sample_work]" by code_simp
  have 9: "search_openalex_async sample_world ''deep learning'' 10 = Some ?rs"
    by (simp add: search_openalex_async_def)
  have 10: "length ?rs = 1" by code_simp
  have 11: "py_get ([sample_work] ! 0) ''abstract_inverted_index'' (PDict []) = Some (index_val ?ix)"
    unfolding 3 by code_simp
  from inverted_index_is_reconstructed [OF 1] obtain ws where
    ws: "index_words (index_val ?ix) = Some ws" and
    ad: "\<forall>w q n body works rs i.
            openalex_api w q n = Inr body \<and> response_items ''results'' body = Some works
            \<and> search_openalex_async w q n = Some rs \<and> i < length rs
            \<and> py_get (works ! i) ''abstract_inverted_index'' (PDict []) = Some (index_val ?ix)
            \<longrightarrow> abstract (rs ! i) = PStr (take 500 (join '' '' ws))"
    by blast
  from ws 3 4 have ws': "ws = [''deep'', ''learning'', ''deep'']" by simp
  from ad 7 8 9 10 11 have "abstract (?rs ! 0) = PStr (take 500 (join '' '' ws))"
    by (metis zero_less_one)
  then have a: "abstract (?rs ! 0) = PStr ''deep learning deep''" by (simp add: ws')
  from inverted_index_is_reconstructed [OF 2] obtain ws2 where
    ws2: "index_words (index_val [(''graph'', [0]), (''nets'', [3])]) = Some ws2" and
    b2: "\<forall>w. abstract (the (openalex_record w
                (PDict [(''abstract_inverted_index'', index_val [(''graph'', [0]), (''nets'', [3])])])))
              = PStr (take 500 (join '' '' ws2))
            \<and> openalex_record w (PDict [(''abstract_inverted_index'',
                  index_val [(''graph'', [0]), (''nets'', [3])])]) \<noteq> None"
    by blast
  from ws2 5 have "ws2 = [''graph'', [], [], ''nets'']" by simp
  with b2 6 have b: "abstract (the (openalex_record sample_world
        (PDict [(''abstract_inverted_index'', index_val [(''graph'', [0]), (''nets'', [3])])])))
       = PStr ''graph   nets''" by simp
  from 3 4 5 10 a b show ?thesis by simp
qed

section \<open>The cache key\<close>

lemma sort_arxiv_arxiv: "sort [''arxiv'', ''arxiv''] = [''arxiv'', ''arxiv'']"
  by code_simp

lemma sort_pubmed_arxiv: "sort [''pubmed'', ''arxiv''] = [''arxiv'', ''pubmed'']"
  by code_simp

lemma cache_key_graph_arxiv_arxiv:
  "cache_key ''graph neural networks'' [''arxiv'', ''arxiv''] = ''db22518e5297c617a1234b2699821677''"
  unfolding cache_key_def sort_arxiv_arxiv by (simp add: md5_eval)

lemma cache_key_graph_arxiv_pubmed:
  "cache_key ''graph neural networks'' [''pubmed'', ''arxiv''] = ''d8a3ebff338d514a110738490a662900''"
  unfolding cache_key_def sort_pubmed_arxiv by (simp add: md5_eval)

text \<open>
  Claim C7, as amended. For every query, two source lists that are rearrangements of each
  other (the same names, each as often) get the same cache key; \<^verbatim>\<open>["pubmed", "arxiv"]\<close> and
  \<^verbatim>\<open>["arxiv", "pubmed"]\<close> do.
\<close>

theorem cache_key_ignores_the_order:
  assumes "mset srcs = mset srcs'"
  shows "cache_key q srcs = cache_key q srcs'"
proof -
  have "sort srcs = sort srcs'"
    using assms by (intro properties_for_sort) simp_all
  then show ?thesis by (simp add: cache_key_def)
qed

text \<open>The two lists of the example, with the key they share.\<close>

theorem cache_key_ignores_the_order_witness:
  "mset [''pubmed'', ''arxiv''] = mset [''arxiv'', ''pubmed'']
   \<and> cache_key ''graph neural networks'' [''pubmed'', ''arxiv'']
       = cache_key ''graph neural networks'' [''arxiv'', ''pubmed'']
   \<and> cache_key ''graph neural networks'' [''pubmed'', ''arxiv''] = ''d8a3ebff338d514a110738490a662900''"
proof -
  have 1: "mset [''pubmed'', ''arxiv''] = mset [''arxiv'', ''pubmed'']" by simp
  from cache_key_ignores_the_order [OF 1, of "''graph neural networks''"] 1
    cache_key_graph_arxiv_pubmed
  show ?thesis by simp
qed

text \<open>
  Claim C7, as stated, fails: \<^verbatim>\<open>["arxiv", "arxiv"]\<close> and \<^verbatim>\<open>["arxiv"]\<close> hold the same set of
  names, and select the same adapters, but the sorted list is hashed with its repetitions
  and the keys differ.
\<close>

theorem repeated_source_name_changes_the_key:
  "set [''arxiv'', ''arxiv''] = set [''arxiv'']
   \<and> cache_key ''graph neural networks'' [''arxiv'', ''arxiv'']
       \<noteq> cache_key ''graph neural networks'' [''arxiv'']"
  by (simp add: cache_key_graph_arxiv cache_key_graph_arxiv_arxiv)

end
